theory Spec2Isabelle
  imports Main "HOL-Library.Word" "HOL-Library.AList"
begin

section \<open>The container registry of server.js\<close>

text \<open>
  The development embeds the request handlers and the timer callbacks of
  \<^verbatim>\<open>server.js\<close>. A container is a JavaScript object: the handlers of
  start, stop and restart capture the object itself in their timer closures,
  while the timer of the creation handler looks the object up again by its id.
  Objects therefore live in an explicit store (\<open>heap\<close>, addressed by index),
  and the registry \<open>containers\<close> (a JavaScript \<open>Map\<close>, which keeps insertion
  order) maps ids to addresses. Deleting a record removes the registry entry
  only; the object stays reachable from pending closures.

  Abstractions: \<open>new Date().toISOString()\<close> is the reading of the clock
  (milliseconds, a \<open>nat\<close>); request fields have their documented JSON types
  (strings and integers), an absent or \<open>null\<close> field is \<open>None\<close>;
  \<open>console.log\<close> has no effect on the state and is left out; the result of
  \<open>crypto.randomBytes(16)\<close> is an input of the creation request.
  \<open>req.body\<close> is \<open>None\<close> when the JSON middleware parsed no body and left it
  undefined (as Express 5 does; Express 4 leaves an empty object, a body with
  every field absent); the source does not fix the version, so both are inputs.
  The handlers are those behind the authentication middleware; the list and
  health endpoints only read the state and are not needed.
\<close>

subsection \<open>Data\<close>

record container =
  containerId :: string
  name :: string
  type :: string
  version :: string
  port :: int
  ramMb :: int
  maxPlayers :: int
  status :: string
  createdAt :: nat
  startedAt :: "nat option"
  stoppedAt :: "nat option"

text \<open>The argument of \<open>createContainer\<close>; the handler passes a truthy name.\<close>

record config =
  cfg_name :: string
  cfg_type :: "string option"
  cfg_version :: "string option"
  cfg_port :: "int option"
  cfg_ramMb :: "int option"
  cfg_maxPlayers :: "int option"

text \<open>The parsed \<open>req.body\<close> of \<open>POST /api/servers\<close>.\<close>

record body =
  body_name :: "string option"
  body_type :: "string option"
  body_version :: "string option"
  body_port :: "int option"
  body_ramMb :: "int option"
  body_maxPlayers :: "int option"

text \<open>
  The closures handed to \<open>setTimeout\<close>, each with the object it captured:
  the startup timer of the creation handler, the timers of start and stop, and
  the outer and inner timer of restart.
\<close>

datatype task =
  CreateStartup nat
  | StartDone nat
  | StopDone nat
  | RestartOuter nat
  | RestartInner nat

record state =
  heap :: "container list"
  containers :: "(string \<times> nat) list"
  timers :: "(nat \<times> task) list"

datatype json =
  ErrorBody string
  | ContainerBody container
  | MessageBody bool string

datatype response = Response nat json

subsection \<open>Identifiers\<close>

definition hex_digit :: "nat \<Rightarrow> char" where
  "hex_digit n = ''0123456789abcdef'' ! n"

definition hex_byte :: "8 word \<Rightarrow> string" where
  "hex_byte b = [hex_digit (unat b div 16), hex_digit (unat b mod 16)]"

text \<open>\<open>buf.toString('hex')\<close>: two lower-case hexadecimal digits per byte.\<close>

definition toHex :: "8 word list \<Rightarrow> string" where
  "toHex bs = concat (map hex_byte bs)"

subsection \<open>Defaults\<close>

text \<open>
  \<open>x || d\<close> on a string and on a number: the default replaces every falsy
  value, that is an absent field, the empty string and zero.
\<close>

definition or_string :: "string option \<Rightarrow> string \<Rightarrow> string" where
  "or_string x d = (case x of None \<Rightarrow> d | Some v \<Rightarrow> if v = [] then d else v)"

definition or_number :: "int option \<Rightarrow> int \<Rightarrow> int" where
  "or_number x d = (case x of None \<Rightarrow> d | Some v \<Rightarrow> if v = 0 then d else v)"

subsection \<open>The registry\<close>

definition init :: state where
  "init = \<lparr>heap = [], containers = [], timers = []\<rparr>"

text \<open>
  \<open>createContainer\<close> (lines 29 to 44) builds a new object, stores it under its id
  (\<open>Map.set\<close> replaces the value of a key that is present and appends a new
  key) and returns the object, here its address.
\<close>

definition createContainer :: "config \<Rightarrow> 8 word list \<Rightarrow> nat \<Rightarrow> state \<Rightarrow> nat \<times> state" where
  "createContainer cfg rnd now s =
     (let cid = toHex rnd;
          c = \<lparr>containerId = cid,
               name = cfg_name cfg,
               type = or_string (cfg_type cfg) ''paper'',
               version = or_string (cfg_version cfg) ''1.21.1'',
               port = or_number (cfg_port cfg) 25565,
               ramMb = or_number (cfg_ramMb cfg) 2048,
               maxPlayers = or_number (cfg_maxPlayers cfg) 20,
               status = ''created'',
               createdAt = now,
               startedAt = None,
               stoppedAt = None\<rparr>;
          r = length (heap s)
      in (r, s\<lparr>heap := heap s @ [c],
                containers := AList.update cid r (containers s)\<rparr>))"

text \<open>
  \<open>setTimeout(f, delay)\<close> called at time \<open>now\<close> adds a pending timer due at
  \<open>now + delay\<close>; \<open>set_obj\<close> is an assignment to fields of the object at an
  address.
\<close>

definition setTimeout :: "task \<Rightarrow> nat \<Rightarrow> nat \<Rightarrow> state \<Rightarrow> state" where
  "setTimeout f delay now s = s\<lparr>timers := timers s @ [(now + delay, f)]\<rparr>"

definition set_obj :: "nat \<Rightarrow> (container \<Rightarrow> container) \<Rightarrow> state \<Rightarrow> state" where
  "set_obj r f s = s\<lparr>heap := (heap s)[r := f (heap s ! r)]\<rparr>"

subsection \<open>Timer callbacks\<close>

text \<open>
  The bodies of the five closures, run at time \<open>now\<close>: the startup timer
  (lines 74 to 83) reads \<open>containers.get(container.id)\<close> and writes only if
  a record is found; the timers of start (131 to 135), stop (151 to 155) and
  restart (169 to 176) write to the captured object.
\<close>

fun callback :: "task \<Rightarrow> nat \<Rightarrow> state \<Rightarrow> state" where
  "callback (CreateStartup r) now s =
     (case map_of (containers s) (containerId (heap s ! r)) of
        None \<Rightarrow> s
      | Some c \<Rightarrow> set_obj c (\<lambda>obj. obj\<lparr>status := ''running'', startedAt := Some now\<rparr>) s)"
| "callback (StartDone r) now s =
     set_obj r (\<lambda>obj. obj\<lparr>status := ''running'', startedAt := Some now\<rparr>) s"
| "callback (StopDone r) now s =
     set_obj r (\<lambda>obj. obj\<lparr>status := ''stopped'', stoppedAt := Some now\<rparr>) s"
| "callback (RestartOuter r) now s =
     setTimeout (RestartInner r) 3000 now
       (set_obj r (\<lambda>obj. obj\<lparr>status := ''starting''\<rparr>) s)"
| "callback (RestartInner r) now s =
     set_obj r (\<lambda>obj. obj\<lparr>status := ''running'', startedAt := Some now\<rparr>) s"

subsection \<open>Request handlers\<close>

text \<open>
  The route handlers: creation (lines 59 to 90), lookup (113 to 118), start
  (121 to 138), stop (141 to 158), restart (161 to 179) and delete (182 to
  190). A response is the HTTP status with the JSON body.

  The creation handler is a \<open>try\<close> block with a \<open>catch\<close>. The block is
  \<open>post_servers_try\<close>: \<open>Inl\<close> is the message of a thrown error, \<open>Inr\<close> the
  answer and the new state. Its first statement (line 61) destructures
  \<open>req.body\<close> and throws a \<open>TypeError\<close> when \<open>req.body\<close> is undefined; this
  happens before any write, so the \<open>catch\<close> (lines 87 to 89) answers 500 with
  \<open>err.message\<close> in the unchanged state. The text of the message is the
  engine's, here that of V8. With fields of the documented types no later
  statement of the block throws.
\<close>

definition post_servers_try ::
  "body option \<Rightarrow> 8 word list \<Rightarrow> nat \<Rightarrow> state \<Rightarrow> string + response \<times> state" where
  "post_servers_try req_body rnd now s =
     (case req_body of
        None \<Rightarrow> Inl ''Cannot destructure property 'name' of 'req.body' as it is undefined.''
      | Some b \<Rightarrow>
          Inr (case body_name b of
                 None \<Rightarrow> (Response 400 (ErrorBody ''Server name is required''), s)
               | Some n \<Rightarrow>
                   if n = [] then (Response 400 (ErrorBody ''Server name is required''), s)
                   else
                     let (r, s1) = createContainer
                           \<lparr>cfg_name = n, cfg_type = body_type b,
                            cfg_version = body_version b, cfg_port = body_port b,
                            cfg_ramMb = body_ramMb b,
                            cfg_maxPlayers = body_maxPlayers b\<rparr> rnd now s;
                         s2 = setTimeout (CreateStartup r) 3000 now s1
                     in (Response 201 (ContainerBody (heap s2 ! r)), s2)))"

definition post_servers ::
  "body option \<Rightarrow> 8 word list \<Rightarrow> nat \<Rightarrow> state \<Rightarrow> response \<times> state" where
  "post_servers req_body rnd now s =
     (case post_servers_try req_body rnd now s of
        Inl message \<Rightarrow> (Response 500 (ErrorBody message), s)
      | Inr answer \<Rightarrow> answer)"

definition get_server :: "string \<Rightarrow> state \<Rightarrow> response \<times> state" where
  "get_server i s =
     (case map_of (containers s) i of
        None \<Rightarrow> (Response 404 (ErrorBody ''Server not found''), s)
      | Some r \<Rightarrow> (Response 200 (ContainerBody (heap s ! r)), s))"

definition post_start :: "string \<Rightarrow> nat \<Rightarrow> state \<Rightarrow> response \<times> state" where
  "post_start i now s =
     (case map_of (containers s) i of
        None \<Rightarrow> (Response 404 (ErrorBody ''Server not found''), s)
      | Some r \<Rightarrow>
          if status (heap s ! r) = ''running''
          then (Response 200 (MessageBody False ''Already running''), s)
          else (Response 200 (MessageBody True ''Server starting''),
                setTimeout (StartDone r) 3000 now
                  (set_obj r (\<lambda>obj. obj\<lparr>status := ''starting''\<rparr>) s)))"

definition post_stop :: "string \<Rightarrow> nat \<Rightarrow> state \<Rightarrow> response \<times> state" where
  "post_stop i now s =
     (case map_of (containers s) i of
        None \<Rightarrow> (Response 404 (ErrorBody ''Server not found''), s)
      | Some r \<Rightarrow>
          if status (heap s ! r) = ''stopped''
          then (Response 200 (MessageBody False ''Already stopped''), s)
          else (Response 200 (MessageBody True ''Server stopping''),
                setTimeout (StopDone r) 2000 now
                  (set_obj r (\<lambda>obj. obj\<lparr>status := ''stopping''\<rparr>) s)))"

definition post_restart :: "string \<Rightarrow> nat \<Rightarrow> state \<Rightarrow> response \<times> state" where
  "post_restart i now s =
     (case map_of (containers s) i of
        None \<Rightarrow> (Response 404 (ErrorBody ''Server not found''), s)
      | Some r \<Rightarrow>
          (Response 200 (MessageBody True ''Server restarting''),
           setTimeout (RestartOuter r) 2000 now
             (set_obj r (\<lambda>obj. obj\<lparr>status := ''stopping''\<rparr>) s)))"

definition delete_server :: "string \<Rightarrow> state \<Rightarrow> response \<times> state" where
  "delete_server i s =
     (case map_of (containers s) i of
        None \<Rightarrow> (Response 404 (ErrorBody ''Server not found''), s)
      | Some r \<Rightarrow>
          (Response 200 (MessageBody True ''Server deleted''),
           s\<lparr>containers := AList.delete i (containers s)\<rparr>))"

subsection \<open>The event loop\<close>

datatype request =
  PostServers "body option" "8 word list"
  | GetServer string
  | PostStart string
  | PostStop string
  | PostRestart string
  | DeleteServer string

fun handle :: "request \<Rightarrow> nat \<Rightarrow> state \<Rightarrow> response \<times> state" where
  "handle (PostServers b rnd) now s = post_servers b rnd now s"
| "handle (GetServer i) now s = get_server i s"
| "handle (PostStart i) now s = post_start i now s"
| "handle (PostStop i) now s = post_stop i now s"
| "handle (PostRestart i) now s = post_restart i now s"
| "handle (DeleteServer i) now s = delete_server i s"

text \<open>
  The event loop runs one handler or one timer callback at a time. Time
  passes (\<open>Tick\<close>), a request is handled at the current time, or a pending
  timer fires. A pending timer fires once its time has come: it leaves the timer list and
  its callback runs to completion. Timers that are due may fire in any order,
  which covers every order the runtime can choose.
\<close>

definition fire :: "nat \<Rightarrow> nat \<Rightarrow> state \<Rightarrow> state" where
  "fire k now s =
     callback (snd (timers s ! k)) now
       (s\<lparr>timers := take k (timers s) @ drop (Suc k) (timers s)\<rparr>)"

datatype event = Tick nat | Request request | Fire nat

fun step :: "event \<Rightarrow> nat \<times> state \<Rightarrow> nat \<times> state" where
  "step (Tick d) (now, s) = (now + d, s)"
| "step (Request rq) (now, s) = (now, snd (handle rq now s))"
| "step (Fire k) (now, s) =
     (if k < length (timers s) \<and> fst (timers s ! k) \<le> now
      then (now, fire k now s) else (now, s))"

fun run :: "event list \<Rightarrow> nat \<times> state \<Rightarrow> nat \<times> state" where
  "run [] c = c"
| "run (e # es) c = run es (step e c)"

text \<open>The states the server can be in: any run from the empty registry.\<close>

definition reachable :: "nat \<times> state \<Rightarrow> bool" where
  "reachable c = (\<exists>es t0. c = run es (t0, init))"

text \<open>What the read endpoints can show: the stored records, in registry order.\<close>

definition observable :: "state \<Rightarrow> (string \<times> container) list" where
  "observable s = map (\<lambda>(i, r). (i, heap s ! r)) (containers s)"

text \<open>The object a timer closure captured, and the id of the record it was scheduled for.\<close>

fun task_obj :: "task \<Rightarrow> nat" where
  "task_obj (CreateStartup r) = r"
| "task_obj (StartDone r) = r"
| "task_obj (StopDone r) = r"
| "task_obj (RestartOuter r) = r"
| "task_obj (RestartInner r) = r"

definition task_id :: "state \<Rightarrow> task \<Rightarrow> string" where
  "task_id s t = containerId (heap s ! task_obj t)"

text \<open>
  A creation request whose random bytes encode the id \<open>i\<close>, and a delete
  request for the id \<open>i\<close>.
\<close>

fun draws :: "string \<Rightarrow> event \<Rightarrow> bool" where
  "draws i (Request (PostServers b rnd)) = (toHex rnd = i)"
| "draws i e = False"

fun deletes :: "string \<Rightarrow> event \<Rightarrow> bool" where
  "deletes i (Request (DeleteServer j)) = (j = i)"
| "deletes i e = False"

text \<open>The five status values of the lifecycle.\<close>

definition statuses :: "string list" where
  "statuses = [''created'', ''starting'', ''running'', ''stopping'', ''stopped'']"

definition valid_status :: "string \<Rightarrow> bool" where
  "valid_status st = (st \<in> set statuses)"

text \<open>Every object ever allocated, stored or not, carries one of the five values.\<close>

definition heap_ok :: "state \<Rightarrow> bool" where
  "heap_ok s = list_all (\<lambda>c. valid_status (status c)) (heap s)"

text \<open>
  Well-formedness of a state: registry keys are unique, every registry entry
  points to an allocated object carrying that id, and every pending closure
  captured an allocated object.
\<close>

definition wf :: "state \<Rightarrow> bool" where
  "wf s = (distinct (map fst (containers s))
     \<and> list_all (\<lambda>(i, r). r < length (heap s) \<and> containerId (heap s ! r) = i) (containers s)
     \<and> list_all (\<lambda>(d, t). task_obj t < length (heap s)) (timers s))"

subsection \<open>Sample inputs\<close>

text \<open>A request body with a name only, sixteen random bytes and their id.\<close>

definition sample_body :: body where
  "sample_body = \<lparr>body_name = Some ''Survival'', body_type = None, body_version = None,
     body_port = None, body_ramMb = None, body_maxPlayers = None\<rparr>"

definition sample_rnd :: "8 word list" where
  "sample_rnd = [0x00, 0x11, 0x22, 0x33, 0x44, 0x55, 0x66, 0x77,
                 0x88, 0x99, 0xaa, 0xbb, 0xcc, 0xdd, 0xee, 0xff]"

definition sample_id :: string where
  "sample_id = ''00112233445566778899aabbccddeeff''"

text \<open>
  Sample runs from the empty registry at time 0: the record just created, the
  record after its startup timer fired, and the record stopped afterwards.
\<close>

definition sample_created :: "nat \<times> state" where
  "sample_created = run [Request (PostServers (Some sample_body) sample_rnd)] (0, init)"

definition sample_running :: "nat \<times> state" where
  "sample_running = run [Tick 3000, Fire 0] sample_created"

definition sample_stopped :: "nat \<times> state" where
  "sample_stopped = run [Request (PostStop sample_id), Tick 2000, Fire 0] sample_running"

definition sample_record :: container where
  "sample_record = \<lparr>containerId = sample_id, name = ''Survival'', type = ''paper'',
     version = ''1.21.1'', port = 25565, ramMb = 2048, maxPlayers = 20, status = ''created'',
     createdAt = 0, startedAt = None, stoppedAt = None\<rparr>"

section \<open>Well-formedness is an invariant\<close>

lemma heap_set_obj [simp]: "heap (set_obj r f s) = (heap s)[r := f (heap s ! r)]"
  and containers_set_obj [simp]: "containers (set_obj r f s) = containers s"
  and timers_set_obj [simp]: "timers (set_obj r f s) = timers s"
  by (simp_all add: set_obj_def)

lemma heap_setTimeout [simp]: "heap (setTimeout t d now s) = heap s"
  and containers_setTimeout [simp]: "containers (setTimeout t d now s) = containers s"
  and timers_setTimeout [simp]: "timers (setTimeout t d now s) = timers s @ [(now + d, t)]"
  by (simp_all add: setTimeout_def)

lemma wf_init: "wf init"
  by (simp add: wf_def init_def)

lemma containerId_nth_update:
  assumes "\<And>c. containerId (f c) = containerId c"
  shows "containerId (xs[r := f (xs ! r)] ! q) = containerId (xs ! q)"
proof (cases "r = q \<and> q < length xs")
  case True
  then show ?thesis using assms by simp
next
  case False
  then have "xs[r := f (xs ! r)] ! q = xs ! q"
    by (cases "r = q") (simp_all add: list_update_beyond)
  then show ?thesis by simp
qed

lemma wf_set_obj:
  assumes "wf s" and "\<And>c. containerId (f c) = containerId c"
  shows "wf (set_obj r f s)"
  using assms by (auto simp: wf_def list_all_iff containerId_nth_update)

lemma wf_setTimeout:
  assumes "wf s" and "task_obj t < length (heap s)"
  shows "wf (setTimeout t d now s)"
  using assms by (auto simp: wf_def list_all_iff)


lemma set_update_subset: "set (AList.update k v al) \<subseteq> insert (k, v) (set al)"
  by (induction al) auto

lemma wf_createContainer:
  assumes "wf s" and "createContainer cfg rnd now s = (r, s')"
  shows "wf s'" and "r = length (heap s)" and "length (heap s') = Suc (length (heap s))"
    and "timers s' = timers s"
proof -
  from assms(2) have s': "s' = s\<lparr>heap := heap s @ [heap s' ! r], containers := AList.update (toHex rnd) r (containers s)\<rparr>"
    and r: "r = length (heap s)" and cid: "containerId (heap s' ! r) = toHex rnd"
    by (auto simp: createContainer_def Let_def)
  show "r = length (heap s)" by fact
  show "length (heap s') = Suc (length (heap s))" by (subst s') simp
  show "timers s' = timers s" by (subst s') simp
  have "\<And>i q. (i, q) \<in> set (containers s') \<Longrightarrow> q < length (heap s') \<and> containerId (heap s' ! q) = i"
  proof -
    fix i q assume "(i, q) \<in> set (containers s')"
    then have "(i, q) \<in> set (AList.update (toHex rnd) r (containers s))" by (subst (asm) s') simp
    then have "(i, q) = (toHex rnd, r) \<or> (i, q) \<in> set (containers s)"
      using set_update_subset by fastforce
    then show "q < length (heap s') \<and> containerId (heap s' ! q) = i"
    proof
      assume "(i, q) = (toHex rnd, r)"
      then show ?thesis using cid r \<open>length (heap s') = Suc (length (heap s))\<close> by simp
    next
      assume "(i, q) \<in> set (containers s)"
      then have "q < length (heap s)" "containerId (heap s ! q) = i"
        using assms(1) by (auto simp: wf_def list_all_iff)
      moreover have "heap s' ! q = heap s ! q" using \<open>q < length (heap s)\<close> by (subst s') (simp add: nth_append)
      ultimately show ?thesis using \<open>length (heap s') = Suc (length (heap s))\<close> by simp
    qed
  qed
  moreover have "distinct (map fst (containers s'))"
    using assms(1) by (subst s') (simp add: wf_def AList.distinct_update)
  moreover have "list_all (\<lambda>(d, t). task_obj t < length (heap s')) (timers s')"
    using assms(1) \<open>timers s' = timers s\<close> \<open>length (heap s') = Suc (length (heap s))\<close>
    by (auto simp: wf_def list_all_iff)
  ultimately show "wf s'" by (auto simp: wf_def list_all_iff)
qed

lemma wf_delete:
  assumes "wf s"
  shows "wf (s\<lparr>containers := AList.delete i (containers s)\<rparr>)"
proof -
  have "set (AList.delete i (containers s)) \<subseteq> set (containers s)"
    by (auto simp: AList.delete_eq)
  then show ?thesis
    using assms by (auto simp: wf_def list_all_iff AList.distinct_delete)
qed

lemma wf_handle:
  assumes "wf s"
  shows "wf (snd (handle rq now s))"
proof (cases rq)
  case (PostServers ob rnd)
  show ?thesis
  proof (cases ob)
    case None
    then show ?thesis using assms PostServers
      by (simp add: post_servers_def post_servers_try_def)
  next
    case (Some b)
    show ?thesis
    proof (cases "body_name b = None \<or> body_name b = Some []")
      case True
      then show ?thesis using assms PostServers Some
        by (auto simp: post_servers_def post_servers_try_def)
    next
      case False
      then obtain n where n: "body_name b = Some n" "n \<noteq> []" by auto
      obtain r s1 where cc: "createContainer
          \<lparr>cfg_name = n, cfg_type = body_type b, cfg_version = body_version b,
           cfg_port = body_port b, cfg_ramMb = body_ramMb b,
           cfg_maxPlayers = body_maxPlayers b\<rparr> rnd now s = (r, s1)"
        by (cases "createContainer
          \<lparr>cfg_name = n, cfg_type = body_type b, cfg_version = body_version b,
           cfg_port = body_port b, cfg_ramMb = body_ramMb b,
           cfg_maxPlayers = body_maxPlayers b\<rparr> rnd now s") auto
      from wf_createContainer[OF assms cc]
      have "wf (setTimeout (CreateStartup r) 3000 now s1)"
        by (intro wf_setTimeout) simp_all
      then show ?thesis using PostServers Some n cc
        by (simp add: post_servers_def post_servers_try_def Let_def)
    qed
  qed
next
  case (GetServer i)
  then show ?thesis using assms by (simp add: get_server_def split: option.splits)
next
  case (PostStart i)
  show ?thesis
  proof (cases "map_of (containers s) i")
    case None
    then show ?thesis using assms PostStart by (simp add: post_start_def)
  next
    case (Some r)
    then have "(i, r) \<in> set (containers s)" by (rule map_of_SomeD)
    then have "r < length (heap s)" using assms by (auto simp: wf_def list_all_iff)
    then have "wf (setTimeout (StartDone r) 3000 now (set_obj r (\<lambda>obj. obj\<lparr>status := ''starting''\<rparr>) s))"
      using assms by (intro wf_setTimeout wf_set_obj) simp_all
    then show ?thesis using assms PostStart Some by (simp add: post_start_def)
  qed
next
  case (PostStop i)
  show ?thesis
  proof (cases "map_of (containers s) i")
    case None
    then show ?thesis using assms PostStop by (simp add: post_stop_def)
  next
    case (Some r)
    then have "(i, r) \<in> set (containers s)" by (rule map_of_SomeD)
    then have "r < length (heap s)" using assms by (auto simp: wf_def list_all_iff)
    then have "wf (setTimeout (StopDone r) 2000 now (set_obj r (\<lambda>obj. obj\<lparr>status := ''stopping''\<rparr>) s))"
      using assms by (intro wf_setTimeout wf_set_obj) simp_all
    then show ?thesis using assms PostStop Some by (simp add: post_stop_def)
  qed
next
  case (PostRestart i)
  show ?thesis
  proof (cases "map_of (containers s) i")
    case None
    then show ?thesis using assms PostRestart by (simp add: post_restart_def)
  next
    case (Some r)
    then have "(i, r) \<in> set (containers s)" by (rule map_of_SomeD)
    then have "r < length (heap s)" using assms by (auto simp: wf_def list_all_iff)
    then have "wf (setTimeout (RestartOuter r) 2000 now (set_obj r (\<lambda>obj. obj\<lparr>status := ''stopping''\<rparr>) s))"
      using assms by (intro wf_setTimeout wf_set_obj) simp_all
    then show ?thesis using assms PostRestart Some by (simp add: post_restart_def)
  qed
next
  case (DeleteServer i)
  then show ?thesis using assms wf_delete[OF assms, of i]
    by (simp add: delete_server_def split: option.splits)
qed

lemma wf_drop_timer:
  assumes "wf s"
  shows "wf (s\<lparr>timers := take k (timers s) @ drop (Suc k) (timers s)\<rparr>)"
  using assms by (auto simp: wf_def list_all_iff dest: in_set_takeD in_set_dropD)

lemma wf_callback:
  assumes "wf s" and "task_obj t < length (heap s)"
  shows "wf (callback t now s)"
proof (cases t)
  case (CreateStartup r)
  then show ?thesis using assms by (auto simp: wf_set_obj split: option.splits)
next
  case (StartDone r)
  then show ?thesis using assms by (simp add: wf_set_obj)
next
  case (StopDone r)
  then show ?thesis using assms by (simp add: wf_set_obj)
next
  case (RestartOuter r)
  then show ?thesis using assms by (auto intro!: wf_setTimeout wf_set_obj)
next
  case (RestartInner r)
  then show ?thesis using assms by (simp add: wf_set_obj)
qed

lemma wf_fire:
  assumes "wf s" and "k < length (timers s)"
  shows "wf (fire k now s)"
proof -
  have "timers s ! k \<in> set (timers s)" using assms(2) by simp
  then have "task_obj (snd (timers s ! k)) < length (heap s)"
    using assms(1) by (auto simp: wf_def list_all_iff)
  then show ?thesis
    unfolding fire_def using wf_drop_timer[OF assms(1), of k]
    by (intro wf_callback) simp_all
qed

lemma wf_step:
  assumes "wf (snd c)"
  shows "wf (snd (step e c))"
proof (cases c)
  case (Pair now s)
  then show ?thesis using assms
    by (cases e) (simp_all add: wf_handle wf_fire)
qed

lemma wf_run:
  assumes "wf (snd c)"
  shows "wf (snd (run es c))"
  using assms by (induction es arbitrary: c) (simp_all add: wf_step)

lemma reachable_wf:
  assumes "reachable c"
  shows "wf (snd c)"
  using assms wf_run[of "(t0, init)" for t0] by (auto simp: reachable_def wf_init)


section \<open>Status values of allocated objects\<close>

lemma valid_status_simps [simp]:
  "valid_status ''created''" "valid_status ''starting''" "valid_status ''running''"
  "valid_status ''stopping''" "valid_status ''stopped''"
  by (simp_all add: valid_status_def statuses_def)

lemma heap_ok_init: "heap_ok init"
  by (simp add: heap_ok_def init_def)

lemma heap_ok_set_obj:
  assumes "heap_ok s" and "\<And>c. valid_status (status (f c))"
  shows "heap_ok (set_obj r f s)"
  using assms by (auto simp: heap_ok_def list_all_iff dest!: set_update_subset_insert[THEN subsetD])

lemma heap_ok_setTimeout:
  assumes "heap_ok s"
  shows "heap_ok (setTimeout t d now s)"
  using assms by (simp add: heap_ok_def)

lemma heap_ok_createContainer:
  assumes "heap_ok s" and "createContainer cfg rnd now s = (r, s')"
  shows "heap_ok s'"
  using assms by (auto simp: heap_ok_def createContainer_def Let_def)

lemma heap_ok_handle:
  assumes "heap_ok s"
  shows "heap_ok (snd (handle rq now s))"
proof (cases rq)
  case (PostServers b rnd)
  then show ?thesis
    using assms
    by (auto simp: post_servers_def post_servers_try_def Let_def split: option.splits prod.splits
        intro!: heap_ok_setTimeout elim: heap_ok_createContainer)
next
  case (GetServer i)
  then show ?thesis using assms by (simp add: get_server_def split: option.splits)
next
  case (PostStart i)
  then show ?thesis using assms
    by (auto simp: post_start_def split: option.splits intro!: heap_ok_setTimeout heap_ok_set_obj)
next
  case (PostStop i)
  then show ?thesis using assms
    by (auto simp: post_stop_def split: option.splits intro!: heap_ok_setTimeout heap_ok_set_obj)
next
  case (PostRestart i)
  then show ?thesis using assms
    by (auto simp: post_restart_def split: option.splits intro!: heap_ok_setTimeout heap_ok_set_obj)
next
  case (DeleteServer i)
  then show ?thesis using assms
    by (simp add: delete_server_def heap_ok_def split: option.splits)
qed

lemma heap_ok_callback:
  assumes "heap_ok s"
  shows "heap_ok (callback t now s)"
  using assms
  by (cases t) (auto split: option.splits intro!: heap_ok_setTimeout heap_ok_set_obj)

lemma heap_ok_fire:
  assumes "heap_ok s"
  shows "heap_ok (fire k now s)"
  unfolding fire_def using assms by (intro heap_ok_callback) (simp add: heap_ok_def)

lemma heap_ok_step:
  assumes "heap_ok (snd c)"
  shows "heap_ok (snd (step e c))"
proof (cases c)
  case (Pair now s)
  then show ?thesis using assms
    by (cases e) (simp_all add: heap_ok_handle heap_ok_fire)
qed

lemma heap_ok_run:
  assumes "heap_ok (snd c)"
  shows "heap_ok (snd (run es c))"
  using assms by (induction es arbitrary: c) (simp_all add: heap_ok_step)

lemma reachable_heap_ok:
  assumes "reachable c"
  shows "heap_ok (snd c)"
  using assms heap_ok_run[of "(t0, init)" for t0] by (auto simp: reachable_def heap_ok_init)

section \<open>Objects are never freed and keep their id\<close>

lemma length_heap_handle: "length (heap s) \<le> length (heap (snd (handle rq now s)))"
  by (cases rq)
     (auto simp: post_servers_def post_servers_try_def createContainer_def Let_def get_server_def post_start_def
        post_stop_def post_restart_def delete_server_def split: option.splits)

lemma length_heap_callback: "length (heap (callback t now s)) = length (heap s)"
  by (cases t) (auto split: option.splits)

lemma length_heap_fire: "length (heap (fire k now s)) = length (heap s)"
  by (simp add: fire_def length_heap_callback)

lemma length_heap_step: "length (heap (snd c)) \<le> length (heap (snd (step e c)))"
  by (cases c; cases e) (simp_all add: length_heap_handle length_heap_fire)

lemma length_heap_run: "length (heap (snd c)) \<le> length (heap (snd (run es c)))"
proof (induction es arbitrary: c)
  case Nil
  show ?case by simp
next
  case (Cons e es)
  have "length (heap (snd c)) \<le> length (heap (snd (step e c)))" by (rule length_heap_step)
  also have "\<dots> \<le> length (heap (snd (run es (step e c))))" by (rule Cons.IH)
  finally show ?case by simp
qed

lemma containerId_update_same:
  assumes "containerId y = containerId (xs ! r)"
  shows "containerId (xs[r := y] ! q) = containerId (xs ! q)"
  using assms by (cases "r = q"; cases "q < length xs") (simp_all add: list_update_beyond)

lemma containerId_handle:
  assumes "r < length (heap s)"
  shows "containerId (heap (snd (handle rq now s)) ! r) = containerId (heap s ! r)"
  using assms
  by (cases rq)
     (auto simp: post_servers_def post_servers_try_def createContainer_def Let_def get_server_def post_start_def
        post_stop_def post_restart_def delete_server_def nth_append containerId_update_same
        split: option.splits)

lemma containerId_callback:
  "containerId (heap (callback t now s) ! r) = containerId (heap s ! r)"
  by (cases t) (auto simp: containerId_update_same split: option.splits)

lemma containerId_fire:
  "containerId (heap (fire k now s) ! r) = containerId (heap s ! r)"
  by (simp add: fire_def containerId_callback)

lemma containerId_step:
  assumes "r < length (heap (snd c))"
  shows "containerId (heap (snd (step e c)) ! r) = containerId (heap (snd c) ! r)"
  using assms by (cases c; cases e) (simp_all add: containerId_handle containerId_fire)

lemma containerId_run:
  assumes "r < length (heap (snd c))"
  shows "containerId (heap (snd (run es c)) ! r) = containerId (heap (snd c) ! r)"
  using assms
proof (induction es arbitrary: c)
  case Nil
  show ?case by simp
next
  case (Cons e es)
  have "r < length (heap (snd (step e c)))"
    using Cons.prems length_heap_step[of c e] by simp
  then show ?case using Cons.IH[of "step e c"] containerId_step[OF Cons.prems, of e] by simp
qed

lemma registry_entry:
  assumes "wf s" and "map_of (containers s) i = Some r"
  shows "r < length (heap s)" and "containerId (heap s ! r) = i"
  using assms map_of_SomeD[OF assms(2)] by (auto simp: wf_def list_all_iff)

lemma fire_obj:
  assumes "r < length (heap s)" and "k < length (timers s)"
  shows "snd (timers s ! k) = StartDone r \<Longrightarrow>
           heap (fire k t s) ! r = (heap s ! r)\<lparr>status := ''running'', startedAt := Some t\<rparr>"
    and "snd (timers s ! k) = StopDone r \<Longrightarrow>
           heap (fire k t s) ! r = (heap s ! r)\<lparr>status := ''stopped'', stoppedAt := Some t\<rparr>"
    and "snd (timers s ! k) = RestartOuter r \<Longrightarrow>
           heap (fire k t s) ! r = (heap s ! r)\<lparr>status := ''starting''\<rparr>
           \<and> timers (fire k t s)
               = take k (timers s) @ drop (Suc k) (timers s) @ [(t + 3000, RestartInner r)]"
    and "snd (timers s ! k) = RestartInner r \<Longrightarrow>
           heap (fire k t s) ! r = (heap s ! r)\<lparr>status := ''running'', startedAt := Some t\<rparr>"
  using assms by (simp_all add: fire_def)

section \<open>Evaluating sample runs\<close>

lemma toHex_sample: "toHex sample_rnd = sample_id"
  by (simp add: toHex_def sample_rnd_def sample_id_def hex_byte_def hex_digit_def)

lemmas eval_defs = Let_def init_def post_servers_def post_servers_try_def createContainer_def setTimeout_def
  or_string_def or_number_def post_start_def post_stop_def post_restart_def delete_server_def
  get_server_def set_obj_def fire_def sample_body_def toHex_sample

lemma reachable_run: "reachable (run es (t0, init))"
  by (auto simp: reachable_def)

lemma run_append: "run (es @ es') c = run es' (run es c)"
  by (induction es arbitrary: c) simp_all

lemma reachable_run_from:
  assumes "reachable c"
  shows "reachable (run es c)"
proof -
  from assms obtain es0 t0 where "c = run es0 (t0, init)" by (auto simp: reachable_def)
  then have "run es c = run (es0 @ es) (t0, init)" by (simp add: run_append)
  then show ?thesis by (auto simp: reachable_def)
qed

lemma reachable_samples:
  "reachable sample_created" "reachable sample_running" "reachable sample_stopped"
proof -
  show c: "reachable sample_created" unfolding sample_created_def by (rule reachable_run)
  show r: "reachable sample_running" unfolding sample_running_def by (rule reachable_run_from[OF c])
  show "reachable sample_stopped" unfolding sample_stopped_def by (rule reachable_run_from[OF r])
qed

lemma sample_created_eq:
  "sample_created = (0, \<lparr>heap = [sample_record], containers = [(sample_id, 0)],
                         timers = [(3000, CreateStartup 0)]\<rparr>)"
  by (simp add: sample_created_def sample_record_def eval_defs)

lemma sample_running_eq:
  "sample_running = (3000, \<lparr>heap = [sample_record\<lparr>status := ''running'', startedAt := Some 3000\<rparr>],
                         containers = [(sample_id, 0)], timers = []\<rparr>)"
  by (simp add: sample_running_def sample_created_eq sample_record_def sample_id_def eval_defs)

lemma sample_stopped_eq:
  "sample_stopped = (5000, \<lparr>heap = [sample_record\<lparr>status := ''stopped'', startedAt := Some 3000,
                                    stoppedAt := Some 5000\<rparr>],
                         containers = [(sample_id, 0)], timers = []\<rparr>)"
  by (simp add: sample_stopped_def sample_running_eq sample_record_def sample_id_def eval_defs)

section \<open>Hexadecimal ids\<close>

lemma hex_digit_inj:
  assumes "n < 16" and "m < 16" and "hex_digit n = hex_digit m"
  shows "n = m"
proof -
  have d: "distinct ''0123456789abcdef''" by simp
  have l: "length ''0123456789abcdef'' = 16" by simp
  show ?thesis
    using assms nth_eq_iff_index_eq[OF d, of n m] unfolding hex_digit_def l by simp
qed

lemma hex_byte_inj:
  assumes "hex_byte a = hex_byte b"
  shows "a = b"
proof -
  have ua: "unat a < 256" using unsigned_less[of a] by simp
  have ub: "unat b < 256" using unsigned_less[of b] by simp
  have "hex_digit (unat a div 16) = hex_digit (unat b div 16)"
    and "hex_digit (unat a mod 16) = hex_digit (unat b mod 16)"
    using assms by (simp_all add: hex_byte_def)
  then have "unat a div 16 = unat b div 16" and "unat a mod 16 = unat b mod 16"
    using ua ub by (auto intro!: hex_digit_inj simp: less_mult_imp_div_less)
  then have "unat a = unat b" by (metis div_mult_mod_eq)
  then show ?thesis by (rule word_unat_eq_iff[THEN iffD2])
qed

lemma toHex_Cons: "toHex (b # bs) = hex_digit (unat b div 16) # hex_digit (unat b mod 16) # toHex bs"
  by (simp add: toHex_def hex_byte_def)

lemma toHex_inj:
  assumes "toHex xs = toHex ys"
  shows "xs = ys"
  using assms
proof (induction xs arbitrary: ys)
  case Nil
  then show ?case by (cases ys) (simp_all add: toHex_def hex_byte_def)
next
  case (Cons x xs)
  show ?case
  proof (cases ys)
    case Nil
    with Cons.prems show ?thesis by (simp add: toHex_def hex_byte_def)
  next
    case (Cons y ys')
    with Cons.prems have "hex_byte x = hex_byte y" and "toHex xs = toHex ys'"
      by (simp_all add: toHex_Cons hex_byte_def)
    then show ?thesis using Cons Cons.IH hex_byte_inj by blast
  qed
qed

lemma length_toHex: "length (toHex bs) = 2 * length bs"
  by (induction bs) (simp_all add: toHex_def hex_byte_def)

section \<open>Timers and the registry\<close>

lemma containers_callback: "containers (callback t now s) = containers s"
  by (cases t) (auto split: option.splits)

lemma containers_fire: "containers (fire k now s) = containers s"
  by (simp add: fire_def containers_callback)

lemma timers_callback:
  "timers (callback t now s)
     = (case t of RestartOuter r \<Rightarrow> timers s @ [(now + 3000, RestartInner r)] | _ \<Rightarrow> timers s)"
  by (cases t) (auto split: option.splits)

lemma not_found_handle:
  assumes "map_of (containers s) i = None" and "\<not> draws i (Request rq)"
  shows "map_of (containers (snd (handle rq now s))) i = None"
  using assms
  by (cases rq)
     (auto simp: post_servers_def post_servers_try_def createContainer_def setTimeout_def Let_def get_server_def
        post_start_def post_stop_def post_restart_def delete_server_def
        AList.update_conv' AList.delete_conv' split: option.splits)

lemma not_found_step:
  assumes "map_of (containers (snd c)) i = None" and "\<not> draws i e"
  shows "map_of (containers (snd (step e c))) i = None"
  using assms by (cases c; cases e) (simp_all add: not_found_handle containers_fire)

lemma not_found_run:
  assumes "map_of (containers (snd c)) i = None" and "list_all (\<lambda>e. \<not> draws i e) es"
  shows "map_of (containers (snd (run es c))) i = None"
  using assms by (induction es arbitrary: c) (simp_all add: not_found_step)

lemma not_found_delete: "map_of (containers (snd (delete_server i s))) i = None"
  by (simp add: delete_server_def AList.delete_conv' split: option.splits)

lemma observable_set_obj:
  assumes "wf s" and "map_of (containers s) (containerId (heap s ! r)) = None"
  shows "observable (set_obj r f s) = observable s"
proof -
  have "heap (set_obj r f s) ! q = heap s ! q" if "(j, q) \<in> set (containers s)" for j q
  proof -
    from that assms(1) have "containerId (heap s ! q) = j" by (auto simp: wf_def list_all_iff)
    moreover from that have "map_of (containers s) j \<noteq> None"
      by (metis map_of_eq_None_iff image_eqI fst_conv)
    ultimately have "q \<noteq> r" using assms(2) by auto
    then show ?thesis by simp
  qed
  then show ?thesis by (auto simp: observable_def)
qed

lemma observable_timers [simp]: "observable (s\<lparr>timers := ts\<rparr>) = observable s"
  by (simp add: observable_def)

lemma observable_setTimeout [simp]: "observable (setTimeout t d now s) = observable s"
  by (simp add: observable_def)

lemma observable_callback:
  assumes "wf s" and "map_of (containers s) (task_id s t) = None"
  shows "observable (callback t now s) = observable s"
  using assms by (cases t) (simp_all add: task_id_def observable_set_obj)

lemma observable_fire:
  assumes "wf s" and "map_of (containers s) (task_id s (snd (timers s ! k))) = None"
  shows "observable (fire k now s) = observable s"
proof -
  let ?s = "s\<lparr>timers := take k (timers s) @ drop (Suc k) (timers s)\<rparr>"
  have "wf ?s" by (rule wf_drop_timer[OF assms(1)])
  moreover have "map_of (containers ?s) (task_id ?s (snd (timers s ! k))) = None"
    using assms(2) by (simp add: task_id_def)
  ultimately have "observable (callback (snd (timers s ! k)) now ?s) = observable ?s"
    by (rule observable_callback)
  then show ?thesis by (simp add: fire_def)
qed

lemma length_update:
  "length (AList.update k v al) = (if map_of al k = None then Suc (length al) else length al)"
  by (induction al) auto

lemma found_handle:
  assumes "map_of (containers s) i = Some r"
    and "\<not> deletes i (Request rq)" and "\<not> draws i (Request rq)"
  shows "map_of (containers (snd (handle rq now s))) i = Some r"
  using assms
  by (cases rq)
     (auto simp: post_servers_def post_servers_try_def createContainer_def setTimeout_def
        Let_def get_server_def post_start_def post_stop_def post_restart_def delete_server_def
        AList.update_conv' AList.delete_conv' split: option.splits)

lemma found_step:
  assumes "map_of (containers (snd c)) i = Some r" and "\<not> deletes i e" and "\<not> draws i e"
  shows "map_of (containers (snd (step e c))) i = Some r"
  using assms by (cases c; cases e) (simp_all add: found_handle containers_fire)

lemma found_run:
  assumes "map_of (containers (snd c)) i = Some r"
    and "list_all (\<lambda>e. \<not> deletes i e \<and> \<not> draws i e) es"
  shows "map_of (containers (snd (run es c))) i = Some r"
  using assms by (induction es arbitrary: c) (simp_all add: found_step)

lemma not_found_after_delete:
  assumes "list_all (\<lambda>e. \<not> draws i e) es2"
  shows "map_of (containers (snd (run (es1 @ Request (DeleteServer i) # es2) c))) i = None"
proof -
  have "map_of (containers (snd (step (Request (DeleteServer i)) (run es1 c)))) i = None"
    by (cases "run es1 c") (simp add: not_found_delete)
  then show ?thesis using not_found_run[OF _ assms] by (simp add: run_append)
qed

section \<open>Properties of the handlers and timers\<close>

text \<open>
  C1, as stated, fails: ids come from random bytes and are not checked against
  the registry, so an id can be drawn again after its record was deleted. The
  startup timer of the deleted record, scheduled before the delete, then finds
  the new record under the id and sets it to \<open>running\<close>: the stored records
  change, and the id is resolvable.
\<close>

theorem old_timer_hits_redrawn_id:
  "run [Request (PostServers (Some sample_body) sample_rnd), Request (DeleteServer sample_id), Tick 1,
        Request (PostServers (Some sample_body) sample_rnd), Tick 2999] (0, init)
     = (3000, \<lparr>heap = [sample_record, sample_record\<lparr>createdAt := 1\<rparr>],
               containers = [(sample_id, 1)],
               timers = [(3000, CreateStartup 0), (3001, CreateStartup 1)]\<rparr>)
   \<and> step (Fire 0)
         (3000, \<lparr>heap = [sample_record, sample_record\<lparr>createdAt := 1\<rparr>],
                 containers = [(sample_id, 1)],
                 timers = [(3000, CreateStartup 0), (3001, CreateStartup 1)]\<rparr>)
     = (3000, \<lparr>heap = [sample_record,
                       sample_record\<lparr>createdAt := 1, status := ''running'',
                                     startedAt := Some 3000\<rparr>],
               containers = [(sample_id, 1)],
               timers = [(3001, CreateStartup 1)]\<rparr>)
   \<and> observable \<lparr>heap = [sample_record, sample_record\<lparr>createdAt := 1\<rparr>],
                  containers = [(sample_id, 1)],
                  timers = [(3000, CreateStartup 0), (3001, CreateStartup 1)]\<rparr>
     \<noteq> observable \<lparr>heap = [sample_record,
                       sample_record\<lparr>createdAt := 1, status := ''running'',
                                     startedAt := Some 3000\<rparr>],
               containers = [(sample_id, 1)],
               timers = [(3001, CreateStartup 1)]\<rparr>
   \<and> get_server sample_id
         \<lparr>heap = [sample_record, sample_record\<lparr>createdAt := 1\<rparr>],
          containers = [(sample_id, 1)],
          timers = [(3000, CreateStartup 0), (3001, CreateStartup 1)]\<rparr>
     = (Response 200 (ContainerBody (sample_record\<lparr>createdAt := 1\<rparr>)),
        \<lparr>heap = [sample_record, sample_record\<lparr>createdAt := 1\<rparr>],
          containers = [(sample_id, 1)],
          timers = [(3000, CreateStartup 0), (3001, CreateStartup 1)]\<rparr>)"
  by (simp add: sample_record_def sample_id_def observable_def eval_defs)

text \<open>
  C1, amended. After a delete request for id \<open>i\<close>, and as long as no later
  creation draws the same id again, a lookup of \<open>i\<close> answers 404, and the
  firing (at any time \<open>t\<close>) of any pending timer that was scheduled for the
  record with id \<open>i\<close> leaves the stored records and the registry unchanged and
  \<open>i\<close> unresolvable. The callback has no failing step, and the fired timer
  leaves the timer list: nothing is scheduled again, except that the outer
  restart timer schedules its inner timer as it always does.
\<close>

theorem deleted_record_timers_are_noops:
  assumes "reachable c0"
    and "c = run es (step (Request (DeleteServer i)) c0)"
    and "list_all (\<lambda>e. \<not> draws i e) es"
    and "k < length (timers (snd c))"
    and "task_id (snd c) (snd (timers (snd c) ! k)) = i"
  shows "get_server i (snd c) = (Response 404 (ErrorBody ''Server not found''), snd c)
    \<and> observable (fire k t (snd c)) = observable (snd c)
    \<and> containers (fire k t (snd c)) = containers (snd c)
    \<and> get_server i (fire k t (snd c))
        = (Response 404 (ErrorBody ''Server not found''), fire k t (snd c))
    \<and> timers (fire k t (snd c))
        = (case snd (timers (snd c) ! k) of
             RestartOuter r \<Rightarrow> take k (timers (snd c)) @ drop (Suc k) (timers (snd c))
                                 @ [(t + 3000, RestartInner r)]
           | _ \<Rightarrow> take k (timers (snd c)) @ drop (Suc k) (timers (snd c)))"
proof -
  have d: "map_of (containers (snd (step (Request (DeleteServer i)) c0))) i = None"
    by (cases c0) (simp add: not_found_delete)
  have nf: "map_of (containers (snd c)) i = None"
    unfolding assms(2) by (rule not_found_run[OF d assms(3)])
  have "reachable c"
    unfolding assms(2) using assms(1) reachable_run_from[of c0 "Request (DeleteServer i) # es"]
    by simp
  then have w: "wf (snd c)" by (rule reachable_wf)
  have o: "observable (fire k t (snd c)) = observable (snd c)"
    using w nf assms(5) by (intro observable_fire) simp_all
  have tm: "timers (fire k t (snd c))
        = (case snd (timers (snd c) ! k) of
             RestartOuter r \<Rightarrow> take k (timers (snd c)) @ drop (Suc k) (timers (snd c))
                                 @ [(t + 3000, RestartInner r)]
           | _ \<Rightarrow> take k (timers (snd c)) @ drop (Suc k) (timers (snd c)))"
    by (simp add: fire_def timers_callback split: task.splits)
  show ?thesis
    using nf o tm by (simp add: get_server_def containers_fire)
qed

theorem deleted_record_timers_are_noops_witness:
  "reachable (run [Request (PostStart sample_id)] sample_created)
   \<and> run [Tick 3000] (step (Request (DeleteServer sample_id))
         (run [Request (PostStart sample_id)] sample_created))
       = (3000, \<lparr>heap = [sample_record\<lparr>status := ''starting''\<rparr>], containers = [],
                 timers = [(3000, CreateStartup 0), (3000, StartDone 0)]\<rparr>)
   \<and> list_all (\<lambda>e. \<not> draws sample_id e) [Tick 3000]
   \<and> task_id \<lparr>heap = [sample_record\<lparr>status := ''starting''\<rparr>], containers = [],
                 timers = [(3000, CreateStartup 0), (3000, StartDone 0)]\<rparr> (StartDone 0)
       = sample_id
   \<and> get_server sample_id \<lparr>heap = [sample_record\<lparr>status := ''starting''\<rparr>], containers = [],
                 timers = [(3000, CreateStartup 0), (3000, StartDone 0)]\<rparr>
       = (Response 404 (ErrorBody ''Server not found''),
          \<lparr>heap = [sample_record\<lparr>status := ''starting''\<rparr>], containers = [],
                 timers = [(3000, CreateStartup 0), (3000, StartDone 0)]\<rparr>)
   \<and> observable (fire 1 3000 \<lparr>heap = [sample_record\<lparr>status := ''starting''\<rparr>],
                 containers = [], timers = [(3000, CreateStartup 0), (3000, StartDone 0)]\<rparr>)
       = []
   \<and> containers (fire 0 3000 \<lparr>heap = [sample_record\<lparr>status := ''starting''\<rparr>],
                 containers = [], timers = [(3000, CreateStartup 0), (3000, StartDone 0)]\<rparr>)
       = []"
proof -
  let ?c0 = "run [Request (PostStart sample_id)] sample_created"
  let ?s = "\<lparr>heap = [sample_record\<lparr>status := ''starting''\<rparr>], containers = [],
                 timers = [(3000, CreateStartup 0), (3000, StartDone 0)]\<rparr>"
  have r: "reachable ?c0" by (rule reachable_run_from[OF reachable_samples(1)])
  have c: "(3000, ?s) = run [Tick 3000] (step (Request (DeleteServer sample_id)) ?c0)"
    by (simp add: sample_created_eq sample_record_def sample_id_def eval_defs)
  have e: "list_all (\<lambda>e. \<not> draws sample_id e) [Tick 3000]" by simp
  have k1: "1 < length (timers (snd (3000, ?s)))" and k0: "0 < length (timers (snd (3000, ?s)))"
    by simp_all
  have t1: "task_id (snd (3000, ?s)) (snd (timers (snd (3000, ?s)) ! 1)) = sample_id"
    and t0: "task_id (snd (3000, ?s)) (snd (timers (snd (3000, ?s)) ! 0)) = sample_id"
    by (simp_all add: task_id_def sample_record_def)
  note a = deleted_record_timers_are_noops[OF r c e k1 t1, of 3000]
  note b = deleted_record_timers_are_noops[OF r c e k0 t0, of 3000]
  have o: "observable ?s = []" by (simp add: observable_def)
  from a have a1: "get_server sample_id ?s = (Response 404 (ErrorBody ''Server not found''), ?s)"
    by simp
  from a o have a2: "observable (fire 1 3000 ?s) = []" by simp
  from b have b1: "containers (fire 0 3000 ?s) = []" by simp
  have t: "task_id ?s (StartDone 0) = sample_id" using t1 by simp
  show ?thesis using r c[symmetric] e t a1 a2 b1 by blast
qed

text \<open>
  C2, as stated, fails: the startup timer of the creation handler looks the
  record up by its id and does nothing when the lookup fails. After create and
  delete the timer fires without effect: the object keeps status \<open>created\<close>
  and has no \<open>startedAt\<close>.
\<close>

theorem startup_after_delete_does_nothing:
  "run [Request (PostServers (Some sample_body) sample_rnd), Request (DeleteServer sample_id),
        Tick 3000, Fire 0] (0, init)
     = (3000, \<lparr>heap = [sample_record], containers = [], timers = []\<rparr>)
   \<and> status sample_record = ''created''
   \<and> startedAt sample_record = None"
  by (simp add: sample_record_def sample_id_def eval_defs)

text \<open>
  C2, amended. The creation handler schedules its startup timer 3000 ms ahead.
  When the timer fires at time \<open>t\<close>, after any events in between, it looks the
  id up: a record stored under the id gets status \<open>running\<close> and
  \<open>startedAt = t\<close> whatever its status was, and with no record under the id
  the timer only leaves the timer list. So the created record itself is set to
  \<open>running\<close> whenever it was neither deleted nor its id drawn again in the
  interim, also when it was stopped; and nothing happens when the record was
  deleted in the interim and no later creation drew the id again.
\<close>

theorem startup_timer_effect:
  assumes "reachable (now, s)" and "body_name b = Some n" and "n \<noteq> []"
    and "c = run es (step (Request (PostServers (Some b) rnd)) (now, s))"
    and "k < length (timers (snd c))"
    and "snd (timers (snd c) ! k) = CreateStartup (length (heap s))"
  shows "timers (snd (step (Request (PostServers (Some b) rnd)) (now, s)))
           = timers s @ [(now + 3000, CreateStartup (length (heap s)))]
    \<and> (map_of (containers (snd c)) (toHex rnd) = None \<longrightarrow>
          fire k t (snd c)
            = (snd c)\<lparr>timers := take k (timers (snd c)) @ drop (Suc k) (timers (snd c))\<rparr>)
    \<and> (\<forall>q. map_of (containers (snd c)) (toHex rnd) = Some q \<longrightarrow>
          fire k t (snd c)
            = (snd c)\<lparr>heap := (heap (snd c))
                         [q := (heap (snd c) ! q)\<lparr>status := ''running'', startedAt := Some t\<rparr>],
                       timers := take k (timers (snd c)) @ drop (Suc k) (timers (snd c))\<rparr>
          \<and> status (heap (fire k t (snd c)) ! q) = ''running''
          \<and> startedAt (heap (fire k t (snd c)) ! q) = Some t)
    \<and> (list_all (\<lambda>e. \<not> deletes (toHex rnd) e \<and> \<not> draws (toHex rnd) e) es \<longrightarrow>
          map_of (containers (snd c)) (toHex rnd) = Some (length (heap s))
          \<and> status (heap (fire k t (snd c)) ! length (heap s)) = ''running''
          \<and> startedAt (heap (fire k t (snd c)) ! length (heap s)) = Some t)
    \<and> (\<forall>es1 es2. es = es1 @ Request (DeleteServer (toHex rnd)) # es2
            \<and> list_all (\<lambda>e. \<not> draws (toHex rnd) e) es2 \<longrightarrow>
          map_of (containers (snd c)) (toHex rnd) = None
          \<and> fire k t (snd c)
              = (snd c)\<lparr>timers := take k (timers (snd c)) @ drop (Suc k) (timers (snd c))\<rparr>)"
proof -
  let ?c1 = "step (Request (PostServers (Some b) rnd)) (now, s)"
  let ?r = "length (heap s)"
  have s1: "snd ?c1 = snd (post_servers (Some b) rnd now s)" by simp
  have h1: "heap (snd ?c1) ! ?r =
        \<lparr>containerId = toHex rnd, name = n,
         type = or_string (body_type b) ''paper'',
         version = or_string (body_version b) ''1.21.1'',
         port = or_number (body_port b) 25565,
         ramMb = or_number (body_ramMb b) 2048,
         maxPlayers = or_number (body_maxPlayers b) 20,
         status = ''created'', createdAt = now, startedAt = None, stoppedAt = None\<rparr>"
    and l1: "length (heap (snd ?c1)) = Suc ?r"
    and t1: "timers (snd ?c1) = timers s @ [(now + 3000, CreateStartup ?r)]"
    and m1: "map_of (containers (snd ?c1)) (toHex rnd) = Some ?r"
    using assms(2,3)
    by (simp_all add: post_servers_def post_servers_try_def createContainer_def setTimeout_def
        Let_def AList.update_conv')
  have r1: "?r < length (heap (snd ?c1))" using l1 by simp
  have "containerId (heap (snd (run es ?c1)) ! ?r) = containerId (heap (snd ?c1) ! ?r)"
    by (rule containerId_run[OF r1])
  then have cid: "containerId (heap (snd c) ! ?r) = toHex rnd"
    unfolding assms(4) h1 by simp
  have "reachable c"
    unfolding assms(4) using reachable_run_from[OF assms(1), of "Request (PostServers (Some b) rnd) # es"]
    by simp
  then have w: "wf (snd c)" by (rule reachable_wf)
  let ?s' = "(snd c)\<lparr>timers := take k (timers (snd c)) @ drop (Suc k) (timers (snd c))\<rparr>"
  have f: "fire k t (snd c)
      = (case map_of (containers (snd c)) (toHex rnd) of
           None \<Rightarrow> ?s'
         | Some q \<Rightarrow> set_obj q (\<lambda>obj. obj\<lparr>status := ''running'', startedAt := Some t\<rparr>) ?s')"
    using assms(6) cid by (simp add: fire_def)
  have none: "fire k t (snd c) = ?s'" if "map_of (containers (snd c)) (toHex rnd) = None"
    using that f by simp
  have some: "fire k t (snd c)
            = (snd c)\<lparr>heap := (heap (snd c))
                         [q := (heap (snd c) ! q)\<lparr>status := ''running'', startedAt := Some t\<rparr>],
                       timers := take k (timers (snd c)) @ drop (Suc k) (timers (snd c))\<rparr>
          \<and> status (heap (fire k t (snd c)) ! q) = ''running''
          \<and> startedAt (heap (fire k t (snd c)) ! q) = Some t"
    if "map_of (containers (snd c)) (toHex rnd) = Some q" for q
  proof -
    have "q < length (heap (snd c))" using registry_entry(1)[OF w that] .
    then show ?thesis using that f by (simp add: set_obj_def)
  qed
  have kept: "map_of (containers (snd c)) (toHex rnd) = Some ?r
          \<and> status (heap (fire k t (snd c)) ! ?r) = ''running''
          \<and> startedAt (heap (fire k t (snd c)) ! ?r) = Some t"
    if "list_all (\<lambda>e. \<not> deletes (toHex rnd) e \<and> \<not> draws (toHex rnd) e) es"
  proof -
    have "map_of (containers (snd (run es ?c1))) (toHex rnd) = Some ?r"
      by (rule found_run[OF m1 that])
    then have "map_of (containers (snd c)) (toHex rnd) = Some ?r" unfolding assms(4) .
    then show ?thesis using some by blast
  qed
  have gone: "map_of (containers (snd c)) (toHex rnd) = None \<and> fire k t (snd c) = ?s'"
    if "es = es1 @ Request (DeleteServer (toHex rnd)) # es2
          \<and> list_all (\<lambda>e. \<not> draws (toHex rnd) e) es2" for es1 es2
  proof -
    have "map_of (containers (snd (run (es1 @ Request (DeleteServer (toHex rnd)) # es2) ?c1)))
            (toHex rnd) = None"
      using that by (intro not_found_after_delete) simp
    then have "map_of (containers (snd c)) (toHex rnd) = None"
      unfolding assms(4) using that by simp
    then show ?thesis using none by blast
  qed
  show ?thesis
    apply (intro conjI allI impI)
    subgoal by (rule t1)
    subgoal by (rule none)
    subgoal using some by blast
    subgoal using some by blast
    subgoal using some by blast
    subgoal using kept by blast
    subgoal using kept by blast
    subgoal using kept by blast
    subgoal using gone by blast
    subgoal using gone by blast
    done
qed

theorem startup_timer_effect_witness:
  "reachable (0, init)
   \<and> body_name sample_body = Some ''Survival'' \<and> ''Survival'' \<noteq> []
   \<and> run [Request (DeleteServer sample_id), Tick 3000]
        (step (Request (PostServers (Some sample_body) sample_rnd)) (0, init))
       = (3000, \<lparr>heap = [sample_record], containers = [], timers = [(3000, CreateStartup 0)]\<rparr>)
   \<and> fire 0 3000 \<lparr>heap = [sample_record], containers = [], timers = [(3000, CreateStartup 0)]\<rparr>
       = \<lparr>heap = [sample_record], containers = [], timers = []\<rparr>
   \<and> run [Request (PostStop sample_id), Tick 2000, Fire 1, Tick 1000]
        (step (Request (PostServers (Some sample_body) sample_rnd)) (0, init))
       = (3000, \<lparr>heap = [sample_record\<lparr>status := ''stopped'', stoppedAt := Some 2000\<rparr>],
                 containers = [(sample_id, 0)], timers = [(3000, CreateStartup 0)]\<rparr>)
   \<and> fire 0 3000 \<lparr>heap = [sample_record\<lparr>status := ''stopped'', stoppedAt := Some 2000\<rparr>],
                 containers = [(sample_id, 0)], timers = [(3000, CreateStartup 0)]\<rparr>
       = \<lparr>heap = [sample_record\<lparr>status := ''running'', startedAt := Some 3000,
                                  stoppedAt := Some 2000\<rparr>],
          containers = [(sample_id, 0)], timers = []\<rparr>
   \<and> ([Request (DeleteServer sample_id), Tick 3000]
              = [] @ Request (DeleteServer (toHex sample_rnd)) # [Tick 3000]
            \<and> list_all (\<lambda>e. \<not> draws (toHex sample_rnd) e) [Tick 3000])
   \<and> list_all (\<lambda>e. \<not> deletes (toHex sample_rnd) e \<and> \<not> draws (toHex sample_rnd) e)
         [Request (PostStop sample_id), Tick 2000, Fire 1, Tick 1000]"
proof -
  let ?a = "\<lparr>heap = [sample_record], containers = [], timers = [(3000, CreateStartup 0)]\<rparr>"
  let ?b = "\<lparr>heap = [sample_record\<lparr>status := ''stopped'', stoppedAt := Some 2000\<rparr>],
             containers = [(sample_id, 0)], timers = [(3000, CreateStartup 0)]\<rparr>"
  have r: "reachable (0, init)" using reachable_run[of "[]" 0] by simp
  have n: "body_name sample_body = Some ''Survival''" "''Survival'' \<noteq> []"
    by (simp_all add: sample_body_def)
  have ca: "(3000::nat, ?a) = run [Request (DeleteServer sample_id), Tick 3000]
        (step (Request (PostServers (Some sample_body) sample_rnd)) (0, init))"
    by (simp add: sample_record_def sample_id_def eval_defs)
  have cb: "(3000::nat, ?b) = run [Request (PostStop sample_id), Tick 2000, Fire 1, Tick 1000]
        (step (Request (PostServers (Some sample_body) sample_rnd)) (0, init))"
    by (simp add: sample_record_def sample_id_def eval_defs)
  have ka: "0 < length (timers (snd (3000::nat, ?a)))"
    and ta: "snd (timers (snd (3000::nat, ?a)) ! 0) = CreateStartup (length (heap init))"
    and kb: "0 < length (timers (snd (3000::nat, ?b)))"
    and tb: "snd (timers (snd (3000::nat, ?b)) ! 0) = CreateStartup (length (heap init))"
    by (simp_all add: init_def)
  note a = startup_timer_effect[OF r n ca ka ta, of 3000]
  note b = startup_timer_effect[OF r n cb kb tb, of 3000]
  have da: "[Request (DeleteServer sample_id), Tick 3000]
              = [] @ Request (DeleteServer (toHex sample_rnd)) # [Tick 3000]
            \<and> list_all (\<lambda>e. \<not> draws (toHex sample_rnd) e) [Tick 3000]"
    by (simp add: toHex_sample)
  have db: "list_all (\<lambda>e. \<not> deletes (toHex sample_rnd) e \<and> \<not> draws (toHex sample_rnd) e)
              [Request (PostStop sample_id), Tick 2000, Fire 1, Tick 1000]"
    by simp
  note a5 = a[THEN conjunct2, THEN conjunct2, THEN conjunct2, THEN conjunct2, rule_format, OF da]
  note b4 = b[THEN conjunct2, THEN conjunct2, THEN conjunct2, THEN conjunct1, rule_format, OF db]
  have mb: "map_of (containers (snd (3000::nat, ?b))) (toHex sample_rnd) = Some 0"
    using b4[THEN conjunct1] by (simp add: init_def)
  note b3 = b[THEN conjunct2, THEN conjunct2, THEN conjunct1, rule_format, OF mb, THEN conjunct1]
  have a2: "fire 0 3000 ?a = \<lparr>heap = [sample_record], containers = [], timers = []\<rparr>"
    using a5[THEN conjunct2] by simp
  have b2: "fire 0 3000 ?b = \<lparr>heap = [sample_record\<lparr>status := ''running'', startedAt := Some 3000,
                                  stoppedAt := Some 2000\<rparr>],
          containers = [(sample_id, 0)], timers = []\<rparr>"
    using b3 by (simp add: sample_record_def)
  show ?thesis
    using r n ca[symmetric] cb[symmetric] a2 b2 da[THEN conjunct1] da[THEN conjunct2] db
    by (intro conjI)
qed

text \<open>
  C3. A restart request for an existing record sets the status to \<open>stopping\<close>
  at once and schedules the outer timer, due after 2000 ms. Only the firing of
  the outer timer (at some \<open>t1\<close>, not before it is due) sets the status to
  \<open>starting\<close> and schedules the inner timer, due at \<open>t1 + 3000\<close>; the firing
  of the inner timer (at some \<open>t2\<close>, not before it is due, hence strictly after
  \<open>t1\<close>) sets the status to \<open>running\<close> and \<open>startedAt = t2\<close>. Without other
  events in between the record goes through \<open>stopping\<close>, \<open>starting\<close>,
  \<open>running\<close> in this order; with other events in between the two timers
  still write \<open>starting\<close> and then \<open>running\<close> to the object.
\<close>

theorem restart_request:
  assumes "reachable (now, s)" and "map_of (containers s) i = Some r"
  shows "post_restart i now s
           = (Response 200 (MessageBody True ''Server restarting''),
              s\<lparr>heap := (heap s)[r := (heap s ! r)\<lparr>status := ''stopping''\<rparr>],
                timers := timers s @ [(now + 2000, RestartOuter r)]\<rparr>)
    \<and> status (heap (snd (post_restart i now s)) ! r) = ''stopping''
    \<and> (\<forall>t1. step (Fire (length (timers s))) (t1, snd (post_restart i now s))
           = (if now + 2000 \<le> t1
              then (t1, s\<lparr>heap := (heap s)[r := (heap s ! r)\<lparr>status := ''starting''\<rparr>],
                         timers := timers s @ [(t1 + 3000, RestartInner r)]\<rparr>)
              else (t1, snd (post_restart i now s))))
    \<and> (\<forall>t1 t2. step (Fire (length (timers s)))
             (t2, s\<lparr>heap := (heap s)[r := (heap s ! r)\<lparr>status := ''starting''\<rparr>],
                    timers := timers s @ [(t1 + 3000, RestartInner r)]\<rparr>)
           = (if t1 + 3000 \<le> t2
              then (t2, s\<lparr>heap := (heap s)[r := (heap s ! r)\<lparr>status := ''running'',
                                                          startedAt := Some t2\<rparr>]\<rparr>)
              else (t2, s\<lparr>heap := (heap s)[r := (heap s ! r)\<lparr>status := ''starting''\<rparr>],
                         timers := timers s @ [(t1 + 3000, RestartInner r)]\<rparr>)))
    \<and> (\<forall>d1 d2. 2000 \<le> d1 \<and> 3000 \<le> d2 \<longrightarrow>
           run [Tick d1, Fire (length (timers s)), Tick d2, Fire (length (timers s))]
             (now, snd (post_restart i now s))
           = (now + d1 + d2,
              s\<lparr>heap := (heap s)[r := (heap s ! r)\<lparr>status := ''running'',
                                                   startedAt := Some (now + d1 + d2)\<rparr>]\<rparr>))
    \<and> (\<forall>es k t. k < length (timers (snd (run es (now, snd (post_restart i now s)))))
           \<and> snd (timers (snd (run es (now, snd (post_restart i now s)))) ! k) = RestartOuter r
         \<longrightarrow> heap (fire k t (snd (run es (now, snd (post_restart i now s))))) ! r
               = (heap (snd (run es (now, snd (post_restart i now s)))) ! r)\<lparr>status := ''starting''\<rparr>
             \<and> timers (fire k t (snd (run es (now, snd (post_restart i now s)))))
               = take k (timers (snd (run es (now, snd (post_restart i now s)))))
                 @ drop (Suc k) (timers (snd (run es (now, snd (post_restart i now s)))))
                 @ [(t + 3000, RestartInner r)])
    \<and> (\<forall>es k t. k < length (timers (snd (run es (now, snd (post_restart i now s)))))
           \<and> snd (timers (snd (run es (now, snd (post_restart i now s)))) ! k) = RestartInner r
         \<longrightarrow> heap (fire k t (snd (run es (now, snd (post_restart i now s))))) ! r
               = (heap (snd (run es (now, snd (post_restart i now s)))) ! r)
                   \<lparr>status := ''running'', startedAt := Some t\<rparr>)"
proof -
  have w: "wf s" using reachable_wf[OF assms(1)] by simp
  have r: "r < length (heap s)" using registry_entry[OF w assms(2)] by simp
  let ?s1 = "s\<lparr>heap := (heap s)[r := (heap s ! r)\<lparr>status := ''stopping''\<rparr>],
                timers := timers s @ [(now + 2000, RestartOuter r)]\<rparr>"
  let ?s2 = "\<lambda>t1. s\<lparr>heap := (heap s)[r := (heap s ! r)\<lparr>status := ''starting''\<rparr>],
                    timers := timers s @ [(t1 + 3000, RestartInner r)]\<rparr>"
  let ?s3 = "\<lambda>t2. s\<lparr>heap := (heap s)[r := (heap s ! r)\<lparr>status := ''running'',
                                                          startedAt := Some t2\<rparr>]\<rparr>"
  have go: "post_restart i now s = (Response 200 (MessageBody True ''Server restarting''), ?s1)"
    using assms(2) by (simp add: post_restart_def setTimeout_def set_obj_def)
  have st: "status (heap ?s1 ! r) = ''stopping''" using r by simp
  have fire1: "step (Fire (length (timers s))) (t1, ?s1)
                = (if now + 2000 \<le> t1 then (t1, ?s2 t1) else (t1, ?s1))" for t1
    using r by (simp add: fire_def set_obj_def setTimeout_def)
  have fire2: "step (Fire (length (timers s))) (t2, ?s2 t1)
                = (if t1 + 3000 \<le> t2 then (t2, ?s3 t2) else (t2, ?s2 t1))" for t1 t2
    using r by (simp add: fire_def set_obj_def)
  have seq: "run [Tick d1, Fire (length (timers s)), Tick d2, Fire (length (timers s))] (now, ?s1)
               = (now + d1 + d2, ?s3 (now + d1 + d2))"
    if "2000 \<le> d1 \<and> 3000 \<le> d2" for d1 d2
  proof -
    have a: "step (Fire (length (timers s))) (now + d1, ?s1) = (now + d1, ?s2 (now + d1))"
      using that by (subst fire1) simp
    have b: "step (Fire (length (timers s))) (now + d1 + d2, ?s2 (now + d1))
               = (now + d1 + d2, ?s3 (now + d1 + d2))"
      using that by (subst fire2) simp
    show ?thesis by (simp only: run.simps step.simps(1) a b)
  qed
  have len: "r < length (heap (snd (run es (now, ?s1))))" for es
    using length_heap_run[of "(now, ?s1)" es] r by simp
  have outer: "heap (fire k t (snd (run es (now, ?s1)))) ! r
                 = (heap (snd (run es (now, ?s1))) ! r)\<lparr>status := ''starting''\<rparr>
               \<and> timers (fire k t (snd (run es (now, ?s1))))
                 = take k (timers (snd (run es (now, ?s1))))
                   @ drop (Suc k) (timers (snd (run es (now, ?s1))))
                   @ [(t + 3000, RestartInner r)]"
    if "k < length (timers (snd (run es (now, ?s1))))"
      and "snd (timers (snd (run es (now, ?s1))) ! k) = RestartOuter r" for es k t
    using fire_obj(3)[OF len that(1) that(2)] .
  have inner: "heap (fire k t (snd (run es (now, ?s1)))) ! r
                 = (heap (snd (run es (now, ?s1))) ! r)\<lparr>status := ''running'', startedAt := Some t\<rparr>"
    if "k < length (timers (snd (run es (now, ?s1))))"
      and "snd (timers (snd (run es (now, ?s1))) ! k) = RestartInner r" for es k t
    using fire_obj(4)[OF len that(1) that(2)] .
  show ?thesis unfolding go snd_conv
    using st fire1 fire2 seq outer inner by blast
qed

theorem restart_request_witness:
  "reachable (3000, snd sample_running)
   \<and> map_of (containers (snd sample_running)) sample_id = Some 0
   \<and> post_restart sample_id 3000 (snd sample_running)
       = (Response 200 (MessageBody True ''Server restarting''),
          \<lparr>heap = [sample_record\<lparr>status := ''stopping'', startedAt := Some 3000\<rparr>],
           containers = [(sample_id, 0)], timers = [(5000, RestartOuter 0)]\<rparr>)
   \<and> step (Fire 0) (4999, snd (post_restart sample_id 3000 (snd sample_running)))
       = (4999, snd (post_restart sample_id 3000 (snd sample_running)))
   \<and> step (Fire 0) (5000, snd (post_restart sample_id 3000 (snd sample_running)))
       = (5000, \<lparr>heap = [sample_record\<lparr>status := ''starting'', startedAt := Some 3000\<rparr>],
                 containers = [(sample_id, 0)], timers = [(8000, RestartInner 0)]\<rparr>)
   \<and> (2000::nat) \<le> 2000 \<and> (3000::nat) \<le> 3000
   \<and> run [Tick 2000, Fire 0, Tick 3000, Fire 0]
         (3000, snd (post_restart sample_id 3000 (snd sample_running)))
       = (8000, \<lparr>heap = [sample_record\<lparr>status := ''running'', startedAt := Some 8000\<rparr>],
                 containers = [(sample_id, 0)], timers = []\<rparr>)
   \<and> snd (timers (snd (run [] (3000, snd (post_restart sample_id 3000 (snd sample_running))))) ! 0)
       = RestartOuter 0
   \<and> status (heap (fire 0 5000
         (snd (run [] (3000, snd (post_restart sample_id 3000 (snd sample_running)))))) ! 0)
       = ''starting''
   \<and> snd (timers (snd (run [Tick 2000, Fire 0]
         (3000, snd (post_restart sample_id 3000 (snd sample_running))))) ! 0) = RestartInner 0
   \<and> status (heap (fire 0 8000 (snd (run [Tick 2000, Fire 0]
         (3000, snd (post_restart sample_id 3000 (snd sample_running)))))) ! 0) = ''running''"
proof -
  have r1: "reachable (3000, snd sample_running)"
    using reachable_samples(2) by (simp add: sample_running_eq)
  have m1: "map_of (containers (snd sample_running)) sample_id = Some 0"
    by (simp add: sample_running_eq)
  note a = restart_request[OF r1 m1]
  let ?s1 = "snd (post_restart sample_id 3000 (snd sample_running))"
  from a have a1: "post_restart sample_id 3000 (snd sample_running)
      = (Response 200 (MessageBody True ''Server restarting''),
         (snd sample_running)\<lparr>heap := (heap (snd sample_running))
             [0 := (heap (snd sample_running) ! 0)\<lparr>status := ''stopping''\<rparr>],
           timers := timers (snd sample_running) @ [(3000 + 2000, RestartOuter 0)]\<rparr>)"
    by blast
  have s1: "?s1 = \<lparr>heap = [sample_record\<lparr>status := ''stopping'', startedAt := Some 3000\<rparr>],
           containers = [(sample_id, 0)], timers = [(5000, RestartOuter 0)]\<rparr>"
    unfolding a1 by (simp add: sample_running_eq)
  from a have a2: "step (Fire (length (timers (snd sample_running)))) (t1, ?s1)
      = (if 3000 + 2000 \<le> t1
         then (t1, (snd sample_running)\<lparr>heap := (heap (snd sample_running))
                 [0 := (heap (snd sample_running) ! 0)\<lparr>status := ''starting''\<rparr>],
               timers := timers (snd sample_running) @ [(t1 + 3000, RestartInner 0)]\<rparr>)
         else (t1, ?s1))" for t1
    by blast
  have d: "(2000::nat) \<le> 2000 \<and> (3000::nat) \<le> 3000" by simp
  from a d have a3: "run [Tick 2000, Fire (length (timers (snd sample_running))), Tick 3000,
                          Fire (length (timers (snd sample_running)))] (3000, ?s1)
      = (3000 + 2000 + 3000,
         (snd sample_running)\<lparr>heap := (heap (snd sample_running))
            [0 := (heap (snd sample_running) ! 0)\<lparr>status := ''running'',
                                                      startedAt := Some (3000 + 2000 + 3000)\<rparr>]\<rparr>)"
    by blast
  have o1: "0 < length (timers (snd (run [] (3000, ?s1))))
            \<and> snd (timers (snd (run [] (3000, ?s1))) ! 0) = RestartOuter 0"
    by (simp add: s1)
  from a o1 have a4: "heap (fire 0 5000 (snd (run [] (3000, ?s1)))) ! 0
      = (heap (snd (run [] (3000, ?s1))) ! 0)\<lparr>status := ''starting''\<rparr>"
    by blast
  have i1: "0 < length (timers (snd (run [Tick 2000, Fire 0] (3000, ?s1))))
            \<and> snd (timers (snd (run [Tick 2000, Fire 0] (3000, ?s1))) ! 0) = RestartInner 0"
    by (simp add: s1 fire_def setTimeout_def set_obj_def)
  from a i1 have a5: "heap (fire 0 8000 (snd (run [Tick 2000, Fire 0] (3000, ?s1)))) ! 0
      = (heap (snd (run [Tick 2000, Fire 0] (3000, ?s1))) ! 0)
          \<lparr>status := ''running'', startedAt := Some 8000\<rparr>"
    by blast
  have l: "length (timers (snd sample_running)) = 0" by (simp add: sample_running_eq)
  have c1: "post_restart sample_id 3000 (snd sample_running)
       = (Response 200 (MessageBody True ''Server restarting''),
          \<lparr>heap = [sample_record\<lparr>status := ''stopping'', startedAt := Some 3000\<rparr>],
           containers = [(sample_id, 0)], timers = [(5000, RestartOuter 0)]\<rparr>)"
    unfolding a1 by (simp add: sample_running_eq)
  have c2: "step (Fire 0) (4999, ?s1) = (4999, ?s1)"
    using a2[of 4999] unfolding l by simp
  have c3: "step (Fire 0) (5000, ?s1)
       = (5000, \<lparr>heap = [sample_record\<lparr>status := ''starting'', startedAt := Some 3000\<rparr>],
                 containers = [(sample_id, 0)], timers = [(8000, RestartInner 0)]\<rparr>)"
    using a2[of 5000] unfolding l by (simp add: sample_running_eq)
  have c4: "run [Tick 2000, Fire 0, Tick 3000, Fire 0] (3000, ?s1)
       = (8000, \<lparr>heap = [sample_record\<lparr>status := ''running'', startedAt := Some 8000\<rparr>],
                 containers = [(sample_id, 0)], timers = []\<rparr>)"
    using a3 unfolding l by (simp add: sample_running_eq)
  have c5: "status (heap (fire 0 5000 (snd (run [] (3000, ?s1)))) ! 0) = ''starting''"
    unfolding a4 by simp
  have c6: "status (heap (fire 0 8000 (snd (run [Tick 2000, Fire 0] (3000, ?s1)))) ! 0) = ''running''"
    unfolding a5 by simp
  show ?thesis
    using r1 m1 c1 c2 c3 d c4 o1 c5 i1 c6 by blast
qed

text \<open>
  C4. A start request for an existing record: when the status is \<open>running\<close> the
  answer is \<open>success = false\<close> with "Already running" and the whole state is
  unchanged; otherwise the status becomes \<open>starting\<close> at once and a timer due
  after 3000 ms is scheduled. That timer cannot fire before it is due; when it
  fires at time \<open>t\<close> the object has status \<open>running\<close> and \<open>startedAt = t\<close>,
  both directly after the request and after any interleaving of other events.
\<close>

theorem start_request:
  assumes "reachable (now, s)" and "map_of (containers s) i = Some r"
  shows "(status (heap s ! r) = ''running'' \<longrightarrow>
           post_start i now s = (Response 200 (MessageBody False ''Already running''), s))
    \<and> (status (heap s ! r) \<noteq> ''running'' \<longrightarrow>
           post_start i now s
             = (Response 200 (MessageBody True ''Server starting''),
                s\<lparr>heap := (heap s)[r := (heap s ! r)\<lparr>status := ''starting''\<rparr>],
                  timers := timers s @ [(now + 3000, StartDone r)]\<rparr>)
         \<and> status (heap (snd (post_start i now s)) ! r) = ''starting''
         \<and> (\<forall>t. step (Fire (length (timers s))) (t, snd (post_start i now s))
                = (if now + 3000 \<le> t
                   then (t, s\<lparr>heap := (heap s)[r := (heap s ! r)\<lparr>status := ''running'',
                                                               startedAt := Some t\<rparr>]\<rparr>)
                   else (t, snd (post_start i now s))))
         \<and> (\<forall>es k t. k < length (timers (snd (run es (now, snd (post_start i now s)))))
                \<and> snd (timers (snd (run es (now, snd (post_start i now s)))) ! k) = StartDone r
              \<longrightarrow> heap (fire k t (snd (run es (now, snd (post_start i now s))))) ! r
                  = (heap (snd (run es (now, snd (post_start i now s)))) ! r)
                      \<lparr>status := ''running'', startedAt := Some t\<rparr>))"
proof -
  have w: "wf s" using reachable_wf[OF assms(1)] by simp
  have r: "r < length (heap s)" using registry_entry[OF w assms(2)] by simp
  let ?s1 = "s\<lparr>heap := (heap s)[r := (heap s ! r)\<lparr>status := ''starting''\<rparr>],
                  timers := timers s @ [(now + 3000, StartDone r)]\<rparr>"
  have noop: "post_start i now s = (Response 200 (MessageBody False ''Already running''), s)"
    if "status (heap s ! r) = ''running''"
    using that assms(2) by (simp add: post_start_def)
  have go: "post_start i now s = (Response 200 (MessageBody True ''Server starting''), ?s1)"
    if "status (heap s ! r) \<noteq> ''running''"
    using that assms(2) by (simp add: post_start_def setTimeout_def set_obj_def)
  have st: "status (heap ?s1 ! r) = ''starting''" using r by simp
  have fire1: "step (Fire (length (timers s))) (t, ?s1)
                = (if now + 3000 \<le> t
                   then (t, s\<lparr>heap := (heap s)[r := (heap s ! r)\<lparr>status := ''running'',
                                                               startedAt := Some t\<rparr>]\<rparr>)
                   else (t, ?s1))" for t
    using r by (simp add: fire_def set_obj_def)
  have later: "heap (fire k t (snd (run es (now, ?s1)))) ! r
                  = (heap (snd (run es (now, ?s1))) ! r)\<lparr>status := ''running'', startedAt := Some t\<rparr>"
    if "k < length (timers (snd (run es (now, ?s1))))"
      and "snd (timers (snd (run es (now, ?s1))) ! k) = StartDone r" for es k t
  proof -
    have "r < length (heap (snd (run es (now, ?s1))))"
      using length_heap_run[of "(now, ?s1)" es] r by simp
    then show ?thesis using fire_obj(1) that by blast
  qed
  show ?thesis using noop go st fire1 later by simp
qed

theorem start_request_witness:
  "reachable (0, snd sample_created)
   \<and> map_of (containers (snd sample_created)) sample_id = Some 0
   \<and> status (heap (snd sample_created) ! 0) \<noteq> ''running''
   \<and> post_start sample_id 0 (snd sample_created)
       = (Response 200 (MessageBody True ''Server starting''),
          \<lparr>heap = [sample_record\<lparr>status := ''starting''\<rparr>], containers = [(sample_id, 0)],
           timers = [(3000, CreateStartup 0)] @ [(3000, StartDone 0)]\<rparr>)
   \<and> step (Fire 1) (3000, snd (post_start sample_id 0 (snd sample_created)))
       = (3000, \<lparr>heap = [sample_record\<lparr>status := ''running'', startedAt := Some 3000\<rparr>],
                 containers = [(sample_id, 0)], timers = [(3000, CreateStartup 0)]\<rparr>)
   \<and> step (Fire 1) (2999, snd (post_start sample_id 0 (snd sample_created)))
       = (2999, snd (post_start sample_id 0 (snd sample_created)))
   \<and> 1 < length (timers (snd (run [Request (PostStop sample_id), Tick 3000]
         (0, snd (post_start sample_id 0 (snd sample_created))))))
   \<and> snd (timers (snd (run [Request (PostStop sample_id), Tick 3000]
         (0, snd (post_start sample_id 0 (snd sample_created))))) ! 1) = StartDone 0
   \<and> status (heap (fire 1 3000 (snd (run [Request (PostStop sample_id), Tick 3000]
         (0, snd (post_start sample_id 0 (snd sample_created)))))) ! 0) = ''running''
   \<and> reachable (3000, snd sample_running)
   \<and> map_of (containers (snd sample_running)) sample_id = Some 0
   \<and> status (heap (snd sample_running) ! 0) = ''running''
   \<and> post_start sample_id 3000 (snd sample_running)
       = (Response 200 (MessageBody False ''Already running''), snd sample_running)"
proof -
  let ?s1 = "snd (post_start sample_id 0 (snd sample_created))"
  let ?es = "[Request (PostStop sample_id), Tick 3000]"
  have r1: "reachable (0, snd sample_created)"
    using reachable_samples by (simp add: sample_created_eq)
  have m1: "map_of (containers (snd sample_created)) sample_id = Some 0"
    by (simp add: sample_created_eq)
  have n1: "status (heap (snd sample_created) ! 0) \<noteq> ''running''"
    by (simp add: sample_created_eq sample_record_def)
  have r2: "reachable (3000, snd sample_running)"
    using reachable_samples by (simp add: sample_running_eq)
  have m2: "map_of (containers (snd sample_running)) sample_id = Some 0"
    by (simp add: sample_running_eq)
  have n2: "status (heap (snd sample_running) ! 0) = ''running''"
    by (simp add: sample_running_eq sample_record_def)
  note a = start_request[OF r1 m1, THEN conjunct2, rule_format, OF n1]
  note b = start_request[OF r2 m2, THEN conjunct1, rule_format, OF n2]
  have s1: "?s1 = \<lparr>heap = [sample_record\<lparr>status := ''starting''\<rparr>], containers = [(sample_id, 0)],
           timers = [(3000, CreateStartup 0)] @ [(3000, StartDone 0)]\<rparr>"
    unfolding a[THEN conjunct1] by (simp add: sample_created_eq)
  have c1: "post_start sample_id 0 (snd sample_created)
       = (Response 200 (MessageBody True ''Server starting''),
          \<lparr>heap = [sample_record\<lparr>status := ''starting''\<rparr>], containers = [(sample_id, 0)],
           timers = [(3000, CreateStartup 0)] @ [(3000, StartDone 0)]\<rparr>)"
    unfolding a[THEN conjunct1] by (simp add: sample_created_eq)
  have l: "length (timers (snd sample_created)) = 1" by (simp add: sample_created_eq)
  note f = a[THEN conjunct2, THEN conjunct2, THEN conjunct1, rule_format, unfolded l]
  have c2: "step (Fire 1) (3000, ?s1)
       = (3000, \<lparr>heap = [sample_record\<lparr>status := ''running'', startedAt := Some 3000\<rparr>],
                 containers = [(sample_id, 0)], timers = [(3000, CreateStartup 0)]\<rparr>)"
    unfolding f by (simp add: sample_created_eq sample_record_def)
  have c3: "step (Fire 1) (2999, ?s1) = (2999, ?s1)"
    unfolding f by simp
  have e1: "1 < length (timers (snd (run ?es (0, ?s1))))
            \<and> snd (timers (snd (run ?es (0, ?s1))) ! 1) = StartDone 0"
    unfolding s1 by (simp add: sample_record_def sample_id_def eval_defs)
  note g = a[THEN conjunct2, THEN conjunct2, THEN conjunct2, rule_format, OF e1]
  have c4: "status (heap (fire 1 3000 (snd (run ?es (0, ?s1)))) ! 0) = ''running''"
    unfolding g by simp
  show ?thesis
    using r1 m1 n1 c1 c2 c3 e1[THEN conjunct1] e1[THEN conjunct2] c4 r2 m2 n2 b
    by (intro conjI)
qed

text \<open>
  C5. A stop request for an existing record: when the status is \<open>stopped\<close> the
  answer is \<open>success = false\<close> with "Already stopped" and the whole state is
  unchanged; otherwise the status becomes \<open>stopping\<close> at once and a timer due
  after 2000 ms is scheduled. That timer cannot fire before it is due; when it
  fires at time \<open>t\<close> the object has status \<open>stopped\<close> and \<open>stoppedAt = t\<close>,
  both directly after the request and after any interleaving of other events.
\<close>

theorem stop_request:
  assumes "reachable (now, s)" and "map_of (containers s) i = Some r"
  shows "(status (heap s ! r) = ''stopped'' \<longrightarrow>
           post_stop i now s = (Response 200 (MessageBody False ''Already stopped''), s))
    \<and> (status (heap s ! r) \<noteq> ''stopped'' \<longrightarrow>
           post_stop i now s
             = (Response 200 (MessageBody True ''Server stopping''),
                s\<lparr>heap := (heap s)[r := (heap s ! r)\<lparr>status := ''stopping''\<rparr>],
                  timers := timers s @ [(now + 2000, StopDone r)]\<rparr>)
         \<and> status (heap (snd (post_stop i now s)) ! r) = ''stopping''
         \<and> (\<forall>t. step (Fire (length (timers s))) (t, snd (post_stop i now s))
                = (if now + 2000 \<le> t
                   then (t, s\<lparr>heap := (heap s)[r := (heap s ! r)\<lparr>status := ''stopped'',
                                                               stoppedAt := Some t\<rparr>]\<rparr>)
                   else (t, snd (post_stop i now s))))
         \<and> (\<forall>es k t. k < length (timers (snd (run es (now, snd (post_stop i now s)))))
                \<and> snd (timers (snd (run es (now, snd (post_stop i now s)))) ! k) = StopDone r
              \<longrightarrow> heap (fire k t (snd (run es (now, snd (post_stop i now s))))) ! r
                  = (heap (snd (run es (now, snd (post_stop i now s)))) ! r)
                      \<lparr>status := ''stopped'', stoppedAt := Some t\<rparr>))"
proof -
  have w: "wf s" using reachable_wf[OF assms(1)] by simp
  have r: "r < length (heap s)" using registry_entry[OF w assms(2)] by simp
  let ?s1 = "s\<lparr>heap := (heap s)[r := (heap s ! r)\<lparr>status := ''stopping''\<rparr>],
                  timers := timers s @ [(now + 2000, StopDone r)]\<rparr>"
  have noop: "post_stop i now s = (Response 200 (MessageBody False ''Already stopped''), s)"
    if "status (heap s ! r) = ''stopped''"
    using that assms(2) by (simp add: post_stop_def)
  have go: "post_stop i now s = (Response 200 (MessageBody True ''Server stopping''), ?s1)"
    if "status (heap s ! r) \<noteq> ''stopped''"
    using that assms(2) by (simp add: post_stop_def setTimeout_def set_obj_def)
  have st: "status (heap ?s1 ! r) = ''stopping''" using r by simp
  have fire1: "step (Fire (length (timers s))) (t, ?s1)
                = (if now + 2000 \<le> t
                   then (t, s\<lparr>heap := (heap s)[r := (heap s ! r)\<lparr>status := ''stopped'',
                                                               stoppedAt := Some t\<rparr>]\<rparr>)
                   else (t, ?s1))" for t
    using r by (simp add: fire_def set_obj_def)
  have later: "heap (fire k t (snd (run es (now, ?s1)))) ! r
                  = (heap (snd (run es (now, ?s1))) ! r)\<lparr>status := ''stopped'', stoppedAt := Some t\<rparr>"
    if "k < length (timers (snd (run es (now, ?s1))))"
      and "snd (timers (snd (run es (now, ?s1))) ! k) = StopDone r" for es k t
  proof -
    have "r < length (heap (snd (run es (now, ?s1))))"
      using length_heap_run[of "(now, ?s1)" es] r by simp
    then show ?thesis using fire_obj(2) that by blast
  qed
  show ?thesis using noop go st fire1 later by simp
qed


theorem stop_request_witness:
  "reachable (3000, snd sample_running)
   \<and> map_of (containers (snd sample_running)) sample_id = Some 0
   \<and> status (heap (snd sample_running) ! 0) \<noteq> ''stopped''
   \<and> post_stop sample_id 3000 (snd sample_running)
       = (Response 200 (MessageBody True ''Server stopping''),
          \<lparr>heap = [sample_record\<lparr>status := ''stopping'', startedAt := Some 3000\<rparr>], containers = [(sample_id, 0)],
           timers = [] @ [(5000, StopDone 0)]\<rparr>)
   \<and> step (Fire 0) (5000, snd (post_stop sample_id 3000 (snd sample_running)))
       = (5000, \<lparr>heap = [sample_record\<lparr>status := ''stopped'', startedAt := Some 3000, stoppedAt := Some 5000\<rparr>],
                 containers = [(sample_id, 0)], timers = []\<rparr>)
   \<and> step (Fire 0) (4999, snd (post_stop sample_id 3000 (snd sample_running)))
       = (4999, snd (post_stop sample_id 3000 (snd sample_running)))
   \<and> 0 < length (timers (snd (run [Request (PostStart sample_id), Tick 2000]
         (3000, snd (post_stop sample_id 3000 (snd sample_running))))))
   \<and> snd (timers (snd (run [Request (PostStart sample_id), Tick 2000]
         (3000, snd (post_stop sample_id 3000 (snd sample_running))))) ! 0) = StopDone 0
   \<and> status (heap (fire 0 5000 (snd (run [Request (PostStart sample_id), Tick 2000]
         (3000, snd (post_stop sample_id 3000 (snd sample_running)))))) ! 0) = ''stopped''
   \<and> reachable (5000, snd sample_stopped)
   \<and> map_of (containers (snd sample_stopped)) sample_id = Some 0
   \<and> status (heap (snd sample_stopped) ! 0) = ''stopped''
   \<and> post_stop sample_id 5000 (snd sample_stopped)
       = (Response 200 (MessageBody False ''Already stopped''), snd sample_stopped)"
proof -
  let ?s1 = "snd (post_stop sample_id 3000 (snd sample_running))"
  let ?es = "[Request (PostStart sample_id), Tick 2000]"
  have r1: "reachable (3000, snd sample_running)"
    using reachable_samples by (simp add: sample_running_eq)
  have m1: "map_of (containers (snd sample_running)) sample_id = Some 0"
    by (simp add: sample_running_eq)
  have n1: "status (heap (snd sample_running) ! 0) \<noteq> ''stopped''"
    by (simp add: sample_running_eq sample_record_def)
  have r2: "reachable (5000, snd sample_stopped)"
    using reachable_samples by (simp add: sample_stopped_eq)
  have m2: "map_of (containers (snd sample_stopped)) sample_id = Some 0"
    by (simp add: sample_stopped_eq)
  have n2: "status (heap (snd sample_stopped) ! 0) = ''stopped''"
    by (simp add: sample_stopped_eq sample_record_def)
  note a = stop_request[OF r1 m1, THEN conjunct2, rule_format, OF n1]
  note b = stop_request[OF r2 m2, THEN conjunct1, rule_format, OF n2]
  have s1: "?s1 = \<lparr>heap = [sample_record\<lparr>status := ''stopping'', startedAt := Some 3000\<rparr>], containers = [(sample_id, 0)],
           timers = [] @ [(5000, StopDone 0)]\<rparr>"
    unfolding a[THEN conjunct1] by (simp add: sample_running_eq)
  have c1: "post_stop sample_id 3000 (snd sample_running)
       = (Response 200 (MessageBody True ''Server stopping''),
          \<lparr>heap = [sample_record\<lparr>status := ''stopping'', startedAt := Some 3000\<rparr>], containers = [(sample_id, 0)],
           timers = [] @ [(5000, StopDone 0)]\<rparr>)"
    unfolding a[THEN conjunct1] by (simp add: sample_running_eq)
  have l: "length (timers (snd sample_running)) = 0" by (simp add: sample_running_eq)
  note f = a[THEN conjunct2, THEN conjunct2, THEN conjunct1, rule_format, unfolded l]
  have c2: "step (Fire 0) (5000, ?s1)
       = (5000, \<lparr>heap = [sample_record\<lparr>status := ''stopped'', startedAt := Some 3000, stoppedAt := Some 5000\<rparr>],
                 containers = [(sample_id, 0)], timers = []\<rparr>)"
    unfolding f by (simp add: sample_running_eq sample_record_def)
  have c3: "step (Fire 0) (4999, ?s1) = (4999, ?s1)"
    unfolding f by simp
  have e1: "0 < length (timers (snd (run ?es (3000, ?s1))))
            \<and> snd (timers (snd (run ?es (3000, ?s1))) ! 0) = StopDone 0"
    unfolding s1 by (simp add: sample_record_def sample_id_def eval_defs)
  note g = a[THEN conjunct2, THEN conjunct2, THEN conjunct2, rule_format, OF e1]
  have c4: "status (heap (fire 0 5000 (snd (run ?es (3000, ?s1)))) ! 0) = ''stopped''"
    unfolding g by simp
  show ?thesis
    using r1 m1 n1 c1 c2 c3 e1[THEN conjunct1] e1[THEN conjunct2] c4 r2 m2 n2 b
    by (intro conjI)
qed

text \<open>
  C6, as stated, fails in one point: the identifier need not be fresh. It is
  the encoding of the random bytes and the registry is not consulted, so a
  creation that draws the bytes of a stored record answers 201 with an id that
  is already in the registry and replaces the stored record.
\<close>

theorem create_reuses_stored_id:
  "reachable sample_created
   \<and> map_of (containers (snd sample_created)) sample_id = Some 0
   \<and> post_servers (Some sample_body) sample_rnd 1 (snd sample_created)
     = (Response 201 (ContainerBody (sample_record\<lparr>createdAt := 1\<rparr>)),
        \<lparr>heap = [sample_record, sample_record\<lparr>createdAt := 1\<rparr>],
         containers = [(sample_id, 1)],
         timers = [(3000, CreateStartup 0), (3001, CreateStartup 1)]\<rparr>)
   \<and> containerId (sample_record\<lparr>createdAt := 1\<rparr>) = sample_id"
  using reachable_samples(1)
  by (simp add: sample_created_eq sample_record_def sample_id_def eval_defs)

text \<open>
  C6, amended. For every body with a non-empty name the creation handler
  answers 201 with the new record and never fails. The record has the id
  encoded from the sixteen random bytes just drawn (two hexadecimal digits per
  byte), the given name, the defaults \<open>paper\<close>, \<open>1.21.1\<close>, 25565, 2048 and 20
  for omitted fields, status \<open>created\<close> and \<open>createdAt\<close> set to the current
  time; it is stored under its id, so that a lookup of the id returns it, and
  the records under other ids stay. The id is fresh, and the registry grows by
  one, whenever no earlier creation drew the same id; on a repeated draw the
  new record takes the place of the stored one.
\<close>

theorem create_request:
  assumes "body_name b = Some n" and "n \<noteq> []"
  shows "let c = \<lparr>containerId = toHex rnd,
                  name = n,
                  type = (case body_type b of None \<Rightarrow> ''paper''
                          | Some v \<Rightarrow> if v = [] then ''paper'' else v),
                  version = (case body_version b of None \<Rightarrow> ''1.21.1''
                          | Some v \<Rightarrow> if v = [] then ''1.21.1'' else v),
                  port = (case body_port b of None \<Rightarrow> 25565
                          | Some v \<Rightarrow> if v = 0 then 25565 else v),
                  ramMb = (case body_ramMb b of None \<Rightarrow> 2048
                          | Some v \<Rightarrow> if v = 0 then 2048 else v),
                  maxPlayers = (case body_maxPlayers b of None \<Rightarrow> 20
                          | Some v \<Rightarrow> if v = 0 then 20 else v),
                  status = ''created'',
                  createdAt = now,
                  startedAt = None,
                  stoppedAt = None\<rparr>;
             s' = s\<lparr>heap := heap s @ [c],
                    containers := AList.update (toHex rnd) (length (heap s)) (containers s),
                    timers := timers s @ [(now + 3000, CreateStartup (length (heap s)))]\<rparr>
         in post_servers (Some b) rnd now s = (Response 201 (ContainerBody c), s')
          \<and> get_server (toHex rnd) s' = (Response 200 (ContainerBody c), s')
          \<and> map_of (containers s') (toHex rnd) = Some (length (heap s))
          \<and> heap s' ! length (heap s) = c
          \<and> length (toHex rnd) = 2 * length rnd
          \<and> length (containers s')
              = (if map_of (containers s) (toHex rnd) = None
                 then Suc (length (containers s)) else length (containers s))
          \<and> (\<forall>j. j \<noteq> toHex rnd \<longrightarrow> map_of (containers s') j = map_of (containers s) j)
          \<and> (\<forall>es t0. (now, s) = run es (t0, init)
                 \<and> list_all (\<lambda>e. \<not> draws (toHex rnd) e) es
               \<longrightarrow> map_of (containers s) (toHex rnd) = None)"
proof -
  have fresh: "map_of (containers s) (toHex rnd) = None"
    if "(now, s) = run es (t0, init) \<and> list_all (\<lambda>e. \<not> draws (toHex rnd) e) es" for es t0
  proof -
    have "map_of (containers (snd (t0, init))) (toHex rnd) = None" by (simp add: init_def)
    then have "map_of (containers (snd (run es (t0, init)))) (toHex rnd) = None"
      using that by (intro not_found_run) simp_all
    then show ?thesis using that by (metis snd_conv)
  qed
  show ?thesis
    using assms fresh
    by (simp add: Let_def post_servers_def post_servers_try_def createContainer_def
        setTimeout_def get_server_def or_string_def or_number_def AList.update_conv'
        length_toHex length_update)
       blast
qed

theorem create_request_witness:
  "body_name sample_body = Some ''Survival'' \<and> ''Survival'' \<noteq> []
   \<and> (0, \<lparr>heap = [sample_record\<lparr>containerId := ''ffeeddccbbaa99887766554433221100''\<rparr>],
           containers = [(''ffeeddccbbaa99887766554433221100'', 0)],
           timers = [(3000, CreateStartup 0)]\<rparr>)
       = run [Request (PostServers (Some sample_body) (rev sample_rnd))] (0, init)
   \<and> list_all (\<lambda>e. \<not> draws (toHex sample_rnd) e)
         [Request (PostServers (Some sample_body) (rev sample_rnd))]
   \<and> map_of (containers
         \<lparr>heap = [sample_record\<lparr>containerId := ''ffeeddccbbaa99887766554433221100''\<rparr>],
          containers = [(''ffeeddccbbaa99887766554433221100'', 0)],
          timers = [(3000, CreateStartup 0)]\<rparr>) (toHex sample_rnd) = None
   \<and> post_servers (Some sample_body) sample_rnd 0
         \<lparr>heap = [sample_record\<lparr>containerId := ''ffeeddccbbaa99887766554433221100''\<rparr>],
          containers = [(''ffeeddccbbaa99887766554433221100'', 0)],
          timers = [(3000, CreateStartup 0)]\<rparr>
       = (Response 201 (ContainerBody
            \<lparr>containerId = ''00112233445566778899aabbccddeeff'', name = ''Survival'',
             type = ''paper'', version = ''1.21.1'', port = 25565, ramMb = 2048,
             maxPlayers = 20, status = ''created'', createdAt = 0, startedAt = None,
             stoppedAt = None\<rparr>),
          \<lparr>heap = [sample_record\<lparr>containerId := ''ffeeddccbbaa99887766554433221100''\<rparr>,
                   sample_record],
           containers = [(''ffeeddccbbaa99887766554433221100'', 0),
                         (''00112233445566778899aabbccddeeff'', 1)],
           timers = [(3000, CreateStartup 0), (3000, CreateStartup 1)]\<rparr>)"
proof -
  let ?s0 = "\<lparr>heap = [sample_record\<lparr>containerId := ''ffeeddccbbaa99887766554433221100''\<rparr>],
          containers = [(''ffeeddccbbaa99887766554433221100'', 0)],
          timers = [(3000, CreateStartup 0)]\<rparr>"
  let ?es = "[Request (PostServers (Some sample_body) (rev sample_rnd))]"
  have x: "toHex (rev sample_rnd) = ''ffeeddccbbaa99887766554433221100''"
    by (simp add: toHex_def sample_rnd_def hex_byte_def hex_digit_def)
  have h: "body_name sample_body = Some ''Survival''" "''Survival'' \<noteq> []"
    by (simp_all add: sample_body_def)
  have r: "(0, ?s0) = run ?es (0, init)"
    by (simp add: sample_record_def x eval_defs)
  have d: "list_all (\<lambda>e. \<not> draws (toHex sample_rnd) e) ?es"
    by (simp add: x toHex_sample sample_id_def)
  note a = create_request[OF h, of sample_rnd 0 ?s0, unfolded Let_def]
  have f: "map_of (containers ?s0) (toHex sample_rnd) = None"
    by (rule a[THEN conjunct2, THEN conjunct2, THEN conjunct2, THEN conjunct2, THEN conjunct2,
          THEN conjunct2, THEN conjunct2, rule_format, OF conjI[OF r d]])
  have p: "post_servers (Some sample_body) sample_rnd 0 ?s0
       = (Response 201 (ContainerBody
            \<lparr>containerId = ''00112233445566778899aabbccddeeff'', name = ''Survival'',
             type = ''paper'', version = ''1.21.1'', port = 25565, ramMb = 2048,
             maxPlayers = 20, status = ''created'', createdAt = 0, startedAt = None,
             stoppedAt = None\<rparr>),
          \<lparr>heap = [sample_record\<lparr>containerId := ''ffeeddccbbaa99887766554433221100''\<rparr>,
                   sample_record],
           containers = [(''ffeeddccbbaa99887766554433221100'', 0),
                         (''00112233445566778899aabbccddeeff'', 1)],
           timers = [(3000, CreateStartup 0), (3000, CreateStartup 1)]\<rparr>)"
    unfolding a[THEN conjunct1]
    by (simp add: toHex_sample sample_id_def sample_body_def sample_record_def)
  show ?thesis using h r d f p by (intro conjI)
qed

text \<open>
  C7, as stated, fails for a creation request with no parsed body: line 61
  destructures \<open>req.body\<close> inside the \<open>try\<close>, the destructuring of
  \<open>undefined\<close> throws, and the \<open>catch\<close> answers 500, not 400. Nothing is
  stored on that path either.
\<close>

theorem missing_body_answers_500:
  "post_servers None sample_rnd 7 (snd sample_created)
     = (Response 500
          (ErrorBody ''Cannot destructure property 'name' of 'req.body' as it is undefined.''),
        snd sample_created)"
  by (simp add: post_servers_def post_servers_try_def)

text \<open>
  C7, amended. A creation request whose parsed body has no \<open>name\<close> (or an empty
  one) is answered with status 400 and the error "Server name is required"; a
  creation request with no parsed body is answered with status 500. In both
  cases the state, and with it the registry and its size, is exactly as before
  the request.
\<close>

theorem missing_name_rejected:
  assumes "body_name b = None \<or> body_name b = Some []"
  shows "post_servers (Some b) rnd now s
           = (Response 400 (ErrorBody ''Server name is required''), s)
    \<and> length (containers (snd (post_servers (Some b) rnd now s))) = length (containers s)
    \<and> (\<exists>message. post_servers None rnd now s = (Response 500 (ErrorBody message), s))
    \<and> length (containers (snd (post_servers None rnd now s))) = length (containers s)"
  using assms by (auto simp: post_servers_def post_servers_try_def)

theorem missing_name_rejected_witness:
  "(body_name (sample_body\<lparr>body_name := None\<rparr>) = None
      \<or> body_name (sample_body\<lparr>body_name := None\<rparr>) = Some [])
   \<and> post_servers (Some (sample_body\<lparr>body_name := None\<rparr>)) sample_rnd 7 (snd sample_created)
     = (Response 400 (ErrorBody ''Server name is required''), snd sample_created)
   \<and> length (containers (snd (post_servers (Some (sample_body\<lparr>body_name := None\<rparr>))
        sample_rnd 7 (snd sample_created)))) = 1
   \<and> length (containers (snd (post_servers None sample_rnd 7 (snd sample_created)))) = 1"
proof -
  have h: "body_name (sample_body\<lparr>body_name := None\<rparr>) = None
      \<or> body_name (sample_body\<lparr>body_name := None\<rparr>) = Some []"
    by simp
  note a = missing_name_rejected[OF h, of sample_rnd 7 "snd sample_created"]
  have l: "length (containers (snd sample_created)) = 1" by (simp add: sample_created_eq)
  show ?thesis
    using h a[THEN conjunct1] a[THEN conjunct2, THEN conjunct1, unfolded l]
      a[THEN conjunct2, THEN conjunct2, THEN conjunct2, unfolded l]
    by (intro conjI)
qed

text \<open>
  C8. In every state reached from the empty registry by any sequence of
  requests, timer firings and clock advances, every stored record has one of the
  five status values \<open>created\<close>, \<open>starting\<close>, \<open>running\<close>, \<open>stopping\<close>,
  \<open>stopped\<close>.
\<close>

theorem status_enumerated:
  "list_all (\<lambda>(i, c). status c \<in> {''created'', ''starting'', ''running'', ''stopping'', ''stopped''})
     (observable (snd (run es (t0, init))))"
proof -
  let ?s = "snd (run es (t0, init))"
  have r: "reachable (run es (t0, init))" by (auto simp: reachable_def)
  have w: "wf ?s" using reachable_wf[OF r] .
  have h: "heap_ok ?s" using reachable_heap_ok[OF r] .
  have "status (heap ?s ! q) \<in> {''created'', ''starting'', ''running'', ''stopping'', ''stopped''}"
    if "(i, q) \<in> set (containers ?s)" for i q
  proof -
    from that w have "q < length (heap ?s)" by (auto simp: wf_def list_all_iff)
    then have "heap ?s ! q \<in> set (heap ?s)" by simp
    with h have "valid_status (status (heap ?s ! q))" by (auto simp: heap_ok_def list_all_iff)
    then show ?thesis by (simp add: valid_status_def statuses_def)
  qed
  then show ?thesis by (auto simp: observable_def list_all_iff)
qed

text \<open>
  C9, as stated, fails: the id is the hexadecimal encoding of the random bytes
  and the registry is not consulted, so two creations that draw the same bytes
  get the same id, and the second record replaces the first in the registry.
\<close>

theorem repeated_draw_reuses_id:
  "run [Request (PostServers (Some sample_body) sample_rnd), Tick 1,
        Request (PostServers (Some sample_body) sample_rnd)] (0, init)
     = (1, \<lparr>heap = [sample_record, sample_record\<lparr>createdAt := 1\<rparr>],
            containers = [(sample_id, 1)],
            timers = [(3000, CreateStartup 0), (3001, CreateStartup 1)]\<rparr>)
   \<and> containerId sample_record = containerId (sample_record\<lparr>createdAt := 1\<rparr>)"
  by (simp add: sample_record_def sample_id_def eval_defs)

text \<open>
  C9, amended. The ids of two created records are equal exactly when the random
  bytes drawn for them are equal: creations with different draws, also with the
  same name, get distinct ids.
\<close>

theorem ids_distinct_iff_draws_distinct:
  assumes "post_servers b1 rnd1 t1 s1 = (Response 201 (ContainerBody c1), s1')"
    and "post_servers b2 rnd2 t2 s2 = (Response 201 (ContainerBody c2), s2')"
  shows "(containerId c1 = containerId c2) = (rnd1 = rnd2)"
proof -
  have "containerId c = toHex rnd"
    if "post_servers b rnd t s = (Response 201 (ContainerBody c), s')" for b rnd t s c s'
    using that
    by (auto simp: post_servers_def post_servers_try_def createContainer_def setTimeout_def Let_def
        split: option.splits if_splits)
  then have "containerId c1 = toHex rnd1" and "containerId c2 = toHex rnd2"
    using assms by blast+
  then show ?thesis using toHex_inj by auto
qed

theorem ids_distinct_iff_draws_distinct_witness:
  "post_servers (Some sample_body) sample_rnd 0 init
     = (Response 201 (ContainerBody sample_record), snd sample_created)
   \<and> post_servers (Some sample_body) (rev sample_rnd) 1 (snd sample_created)
     = (Response 201 (ContainerBody
          (sample_record\<lparr>containerId := ''ffeeddccbbaa99887766554433221100'', createdAt := 1\<rparr>)),
        snd (post_servers (Some sample_body) (rev sample_rnd) 1 (snd sample_created)))
   \<and> containerId sample_record
       \<noteq> containerId (sample_record\<lparr>containerId := ''ffeeddccbbaa99887766554433221100'',
                                        createdAt := 1\<rparr>)
   \<and> sample_rnd \<noteq> rev sample_rnd"
proof -
  have h: "toHex (rev sample_rnd) = ''ffeeddccbbaa99887766554433221100''"
    by (simp add: toHex_def sample_rnd_def hex_byte_def hex_digit_def)
  have a: "post_servers (Some sample_body) sample_rnd 0 init
     = (Response 201 (ContainerBody sample_record), snd sample_created)"
    by (simp add: sample_created_eq sample_record_def eval_defs)
  have b: "post_servers (Some sample_body) (rev sample_rnd) 1 (snd sample_created)
     = (Response 201 (ContainerBody
          (sample_record\<lparr>containerId := ''ffeeddccbbaa99887766554433221100'', createdAt := 1\<rparr>)),
        snd (post_servers (Some sample_body) (rev sample_rnd) 1 (snd sample_created)))"
    by (simp add: sample_created_eq sample_record_def sample_id_def h eval_defs)
  have c: "sample_rnd \<noteq> rev sample_rnd" by (simp add: sample_rnd_def)
  show ?thesis using a b c ids_distinct_iff_draws_distinct[OF a b] by simp
qed


end
